theory Spec2Isabelle
  imports Complex_Main "HOL-Library.Word"
begin

section \<open>Matrix: a shallow embedding of \<^verbatim>\<open>src/matrix.cpp\<close>\<close>

text \<open>
  The class template \<^verbatim>\<open>Matrix<val_t>\<close> keeps a private array of row pointers
  \<^verbatim>\<open>val_t **_data\<close> and two dimensions of type \<^verbatim>\<open>dim_t = unsigned\<close>.
  The rows are allocated by \<^verbatim>\<open>allocDims\<close> and never shared between objects, so the
  storage of one object is modelled as a list of rows that belongs to the object.  A cell
  that \<^verbatim>\<open>new val_t[w]\<close> has allocated but nothing has written yet holds an
  indeterminate value: it is \<open>None\<close>.  The member \<^verbatim>\<open>_id\<close> is written by the default
  constructor only and read nowhere; it is left out.  Every \<^verbatim>\<open>new\<close> is taken to
  succeed.
\<close>

subsection \<open>Outcomes of a call\<close>

text \<open>
  \<^verbatim>\<open>std::domain_error\<close> is the only exception the file throws.  Reading or writing
  outside an allocated array, and reading an indeterminate value, are undefined behaviour
  in C++; the model records them as the outcome \<open>Undefined\<close> instead of inventing a value.
\<close>

datatype exn = DomainError string

datatype 'r outcome = Return 'r | Throw exn | Undefined

fun and_then :: "'r outcome \<Rightarrow> ('r \<Rightarrow> 'q outcome) \<Rightarrow> 'q outcome" where
  "and_then (Return x) f = f x"
| "and_then (Throw e) f = Throw e"
| "and_then Undefined f = Undefined"

subsection \<open>Counted loops\<close>

type_synonym dim_t = "32 word"

text \<open>
  \<^verbatim>\<open>unsigned\<close> and \<^verbatim>\<open>int\<close> are taken as 32 bits wide and \<^verbatim>\<open>size_t\<close> as wider,
  as on the usual 64-bit platforms; the size of a \<^verbatim>\<open>std::vector\<close> is a natural number.

  \<^verbatim>\<open>for (dim_t i = i0; i < n; ++i) body\<close>, with the loop state threaded through the
  body.  The counter is an unsigned 32-bit word; \<open>i < n\<close> keeps \<open>i + 1\<close> from wrapping.
  An exception or undefined behaviour in the body leaves the loop at once.
\<close>

function for_dim :: "dim_t \<Rightarrow> dim_t \<Rightarrow> (dim_t \<Rightarrow> 's \<Rightarrow> 's outcome) \<Rightarrow> 's \<Rightarrow> 's outcome" where
  "for_dim i n body s =
     (if i < n then
        (case body i s of
           Return s' \<Rightarrow> for_dim (i + 1) n body s'
         | Throw e \<Rightarrow> Throw e
         | Undefined \<Rightarrow> Undefined)
      else Return s)"
  by pat_completeness auto
termination
proof (relation "measure (\<lambda>(i, n, body, s). unat n - unat i)")
  show "wf (measure (\<lambda>(i, n, body, s). unat n - unat i))"
    by simp
next
  fix i n :: dim_t and body :: "dim_t \<Rightarrow> 's \<Rightarrow> 's outcome" and s s' :: 's
  assume "i < n"
  then have "unat i < unat n"
    by (simp add: word_less_nat_alt)
  moreover from \<open>i < n\<close> have "unat (i + 1) = unat i + 1"
    by (metis (no_types, lifting) add.commute add_0 inc_i inc_le
        unat_plus_simple unsigned_0 unsigned_1 word_gt_0)
  ultimately show "((i + 1, n, body, s'), (i, n, body, s))
      \<in> measure (\<lambda>(i, n, body, s). unat n - unat i)"
    by simp
qed

declare for_dim.simps [simp del]

subsection \<open>Storage and element access\<close>

record 'a matrix =
  data :: "'a option list list"
  height :: dim_t
  width :: dim_t

text \<open>
  \<^verbatim>\<open>allocDims(h, w)\<close>: an array of \<open>h\<close> row pointers, each to a fresh array of \<open>w\<close>
  elements, none of them written yet.
\<close>

definition allocDims :: "dim_t \<Rightarrow> dim_t \<Rightarrow> 'a option list list" where
  "allocDims h w = replicate (unat h) (replicate (unat w) None)"

text \<open>
  The two forms of the expression \<^verbatim>\<open>_data[y][x]\<close>: read as a value, and assigned to.
  Neither compares \<open>y\<close> or \<open>x\<close> with \<^verbatim>\<open>_height\<close> or \<^verbatim>\<open>_width\<close>; what
  decides is the storage that was allocated.
\<close>

definition cell_read :: "'a option list list \<Rightarrow> dim_t \<Rightarrow> dim_t \<Rightarrow> 'a outcome" where
  "cell_read d y x =
     (if unat y < length d \<and> unat x < length (d ! unat y) then
        (case d ! unat y ! unat x of Some v \<Rightarrow> Return v | None \<Rightarrow> Undefined)
      else Undefined)"

definition cell_write :: "'a option list list \<Rightarrow> dim_t \<Rightarrow> dim_t \<Rightarrow> 'a \<Rightarrow> 'a option list list outcome" where
  "cell_write d y x v =
     (if unat y < length d \<and> unat x < length (d ! unat y) then
        Return (d[unat y := (d ! unat y)[unat x := Some v]])
      else Undefined)"

text \<open>\<^verbatim>\<open>inline val_t get(const dim_t y, const dim_t x) const { return _data[y][x]; }\<close>\<close>

definition get :: "'a matrix \<Rightarrow> dim_t \<Rightarrow> dim_t \<Rightarrow> 'a outcome" where
  "get m y x = cell_read (data m) y x"

text \<open>
  \<^verbatim>\<open>inline void set(const dim_t y, const dim_t x, const val_t &dat) { _data[y][x] = dat; }\<close>
  The result is the object after the call.
\<close>

definition set_m :: "'a matrix \<Rightarrow> dim_t \<Rightarrow> dim_t \<Rightarrow> 'a \<Rightarrow> 'a matrix outcome" where
  "set_m m y x dat = and_then (cell_write (data m) y x dat) (\<lambda>d. Return (m\<lparr>data := d\<rparr>))"

subsection \<open>Constructors\<close>

text \<open>
  \<^verbatim>\<open>Matrix(const dim_t height, const dim_t width, const int random = 0)\<close> called with
  two arguments, as every other member of the class calls it.  With \<open>random = 0\<close> both
  tests \<^verbatim>\<open>if (random)\<close> take the else branch and the generator is not touched.
\<close>

definition Matrix_hw :: "dim_t \<Rightarrow> dim_t \<Rightarrow> 'a::zero matrix outcome" where
  "Matrix_hw h w =
     and_then
       (for_dim 0 h (\<lambda>i. for_dim 0 w (\<lambda>j d. cell_write d i j 0)) (allocDims h w))
       (\<lambda>d. Return \<lparr>data = d, height = h, width = w\<rparr>)"

text \<open>
  The C library's generator, which is not part of the repository: \<open>srand\<close> replaces the
  process-wide generator state by one computed from the seed, \<open>rand\<close> returns the next
  value and the state after it, \<open>RAND_MAX\<close> is the largest value \<open>rand\<close> returns.
\<close>

record 'g stdlib =
  srand :: "32 word \<Rightarrow> 'g"
  rand :: "'g \<Rightarrow> int \<times> 'g"
  RAND_MAX :: int

text \<open>
  The constructor as declared, with the process-wide generator state \<open>g0\<close> passed in and
  returned.  In \<^verbatim>\<open>(val_t)std::rand() / RAND_MAX * 2 - 1\<close> the value of \<open>rand\<close> is cast to
  the element type, and the usual arithmetic conversions bring \<^verbatim>\<open>RAND_MAX\<close>, 2 and 1 to
  the element type as well (the element type is taken to be a floating type or an integer
  type that is not narrower than \<^verbatim>\<open>int\<close>).  \<open>conv\<close> is that conversion from
  \<^verbatim>\<open>int\<close>; the quotient, the product and the difference are the element type's own, and
  nothing is assumed of them: they may truncate, wrap around or round (on Isabelle's
  integers the quotient rounds down, as the C++ one does on the operands that occur here,
  which are not negative).  The \<^verbatim>\<open>int\<close>
  argument \<open>random\<close> is kept as its 32 bits, which the conversion to the \<^verbatim>\<open>unsigned\<close>
  parameter of \<open>srand\<close> does not change.
\<close>

definition Matrix_ctor ::
    "'g stdlib \<Rightarrow> (int \<Rightarrow> 'a) \<Rightarrow> dim_t \<Rightarrow> dim_t \<Rightarrow> 32 word \<Rightarrow> 'g
       \<Rightarrow> ('g \<times> 'a::{zero,divide,times,minus} matrix) outcome" where
  "Matrix_ctor lib conv h w random g0 =
     (let g1 = (if random \<noteq> 0 then srand lib random else g0) in
      and_then
        (for_dim 0 h (\<lambda>i. for_dim 0 w (\<lambda>j (g, d).
           if random \<noteq> 0 then
             (let (r, g') = rand lib g in
              and_then
                (cell_write d i j (divide (conv r) (conv (RAND_MAX lib)) * conv 2 - conv 1))
                (\<lambda>d'. Return (g', d')))
           else
             and_then (cell_write d i j 0) (\<lambda>d'. Return (g, d'))))
          (g1, allocDims h w))
        (\<lambda>(g, d). Return (g, \<lparr>data = d, height = h, width = w\<rparr>)))"

text \<open>
  \<^verbatim>\<open>Matrix()\<close>: one row pointer to one element that is never written, the shape 0 by 0,
  and a call of \<open>rand\<close> for the identifier.
\<close>

definition Matrix_default :: "'g stdlib \<Rightarrow> 'g \<Rightarrow> 'g \<times> 'a matrix" where
  "Matrix_default lib g = (snd (rand lib g), \<lparr>data = [[None]], height = 0, width = 0\<rparr>)"

text \<open>\<^verbatim>\<open>std::vector::operator[]\<close>, which does not check its index.\<close>

definition vec_at :: "'b list \<Rightarrow> nat \<Rightarrow> 'b outcome" where
  "vec_at v i = (if i < length v then Return (v ! i) else Undefined)"

text \<open>
  \<^verbatim>\<open>Matrix(const std::vector<std::vector<val_t>> &src) : Matrix(src.size(), src[0].size())\<close>.
  The delegating initialiser reads \<^verbatim>\<open>src[0]\<close> first, and converts both sizes from
  \<^verbatim>\<open>size_t\<close> to \<^verbatim>\<open>dim_t\<close>.  The comparison \<^verbatim>\<open>src[i].size() != _width\<close> is made
  on the unconverted size.  An exception leaves the constructor without an object.
\<close>

definition Matrix_from_rows :: "'a::zero list list \<Rightarrow> 'a matrix outcome" where
  "Matrix_from_rows src =
     and_then (vec_at src 0) (\<lambda>row0.
     and_then (Matrix_hw (of_nat (length src)) (of_nat (length row0))) (\<lambda>this.
       for_dim 0 (height this) (\<lambda>i this.
         and_then (vec_at src (unat i)) (\<lambda>row.
           if length row \<noteq> unat (width this) then
             Throw (DomainError ''Non rectangular vector input!'')
           else
             for_dim 0 (width this) (\<lambda>j this.
               and_then (vec_at row (unat j)) (\<lambda>v. set_m this i j v)) this)) this))"

text \<open>\<^verbatim>\<open>Matrix(const Matrix &src) : Matrix(src.height(), src.width())\<close>\<close>

definition Matrix_copy :: "'a::zero matrix \<Rightarrow> 'a matrix outcome" where
  "Matrix_copy src =
     and_then (Matrix_hw (height src) (width src)) (\<lambda>this.
       for_dim 0 (height this) (\<lambda>i. for_dim 0 (width this) (\<lambda>j this.
         and_then (get src i j) (\<lambda>v. set_m this i j v))) this)"

subsection \<open>Operations on objects\<close>

text \<open>
  Arguments passed by reference name objects; two references may name the same object.
  The objects live in a heap that maps a reference to the state of its object.  An
  operation takes the heap before the call and returns the heap after it together with
  the outcome; after \<open>Undefined\<close> the heap has no meaning.
\<close>

type_synonym ref = nat

type_synonym 'a heap = "ref \<Rightarrow> 'a matrix"

text \<open>\<^verbatim>\<open>static Matrix transpose(const Matrix &src)\<close>\<close>

definition transpose_m :: "ref \<Rightarrow> 'a::zero heap \<Rightarrow> 'a heap \<times> 'a matrix outcome" where
  "transpose_m src s =
     (s, and_then (Matrix_hw (width (s src)) (height (s src))) (\<lambda>ret.
           for_dim 0 (height (s src)) (\<lambda>h. for_dim 0 (width (s src)) (\<lambda>w ret.
             and_then (get (s src) h w) (\<lambda>v. set_m ret w h v))) ret))"

text \<open>\<^verbatim>\<open>static Matrix dot(const Matrix &lhs, const Matrix &rhs)\<close>\<close>

definition dot :: "ref \<Rightarrow> ref \<Rightarrow> 'a::{zero,plus,times} heap \<Rightarrow> 'a heap \<times> 'a matrix outcome" where
  "dot lhs rhs s =
     (s, if width (s lhs) \<noteq> height (s rhs) then
           Throw (DomainError ''Invalid matrix dimensions for static dot multiplication!'')
         else
           and_then (Matrix_hw (height (s lhs)) (width (s rhs))) (\<lambda>ret.
             for_dim 0 (height (s lhs)) (\<lambda>r. for_dim 0 (width (s rhs)) (\<lambda>c ret.
               and_then
                 (for_dim 0 (width (s lhs)) (\<lambda>i sum.
                    and_then (get (s lhs) r i) (\<lambda>a.
                    and_then (get (s rhs) i c) (\<lambda>b. Return (sum + a * b)))) 0)
                 (\<lambda>sum. set_m ret r c sum))) ret))"

text \<open>
  \<^verbatim>\<open>Matrix<val_t> operator-=(const Matrix<val_t> &o)\<close> and
  \<^verbatim>\<open>Matrix<val_t> operator*=(const Matrix<val_t> &o)\<close>, the same text but for the
  operator and the message.  Both return by value: the result is a copy of \<^verbatim>\<open>*this\<close>.
  The loop bounds \<^verbatim>\<open>h()\<close> and \<^verbatim>\<open>w()\<close> are read once here; \<open>set_m\<close> leaves
  them as they are.  Nothing in the loop throws (lemma \<open>elementwise_no_throw\<close>).
\<close>

definition elementwise ::
    "('a \<Rightarrow> 'a \<Rightarrow> 'a) \<Rightarrow> ref \<Rightarrow> ref \<Rightarrow> 'a heap \<Rightarrow> 'a heap outcome" where
  "elementwise f this o' s =
     for_dim 0 (height (s this)) (\<lambda>i. for_dim 0 (width (s this)) (\<lambda>j s.
       and_then (get (s this) i j) (\<lambda>a.
       and_then (get (s o') i j) (\<lambda>b.
       and_then (set_m (s this) i j (f a b)) (\<lambda>m. Return (s(this := m))))))) s"

definition compound_assign ::
    "('a \<Rightarrow> 'a \<Rightarrow> 'a) \<Rightarrow> string \<Rightarrow> ref \<Rightarrow> ref \<Rightarrow> 'a::zero heap \<Rightarrow> 'a heap \<times> 'a matrix outcome" where
  "compound_assign f msg this o' s =
     (if width (s this) \<noteq> width (s o') \<or> height (s this) \<noteq> height (s o') then
        (s, Throw (DomainError msg))
      else
        (case elementwise f this o' s of
           Return s' \<Rightarrow> (s', Matrix_copy (s' this))
         | Throw e \<Rightarrow> (s, Throw e)
         | Undefined \<Rightarrow> (s, Undefined)))"

definition sub_assign :: "ref \<Rightarrow> ref \<Rightarrow> 'a::{zero,minus} heap \<Rightarrow> 'a heap \<times> 'a matrix outcome" where
  "sub_assign = compound_assign (\<lambda>a b. a - b) ''Invalid matrix dimesions for element-wise subtract!''"

definition mul_assign :: "ref \<Rightarrow> ref \<Rightarrow> 'a::{zero,times} heap \<Rightarrow> 'a heap \<times> 'a matrix outcome" where
  "mul_assign = compound_assign (\<lambda>a b. a * b) ''Invalid matrix dimesions for element-wise multiply!''"

subsection \<open>Printing\<close>

text \<open>
  \<^verbatim>\<open>for (int i = 0; i < n; ++i) body\<close> with \<open>n\<close> unsigned: the comparison converts
  \<open>i\<close> to unsigned, and \<^verbatim>\<open>++i\<close> at \<^verbatim>\<open>INT_MAX\<close> is a signed overflow.  The counter
  starts at 0 and only grows, so it is kept as a natural number.
\<close>

function for_int :: "nat \<Rightarrow> dim_t \<Rightarrow> (dim_t \<Rightarrow> 's \<Rightarrow> 's outcome) \<Rightarrow> 's \<Rightarrow> 's outcome" where
  "for_int i n body s =
     (if (of_nat i :: dim_t) < n then
        (case body (of_nat i) s of
           Return s' \<Rightarrow> if i < 2147483647 then for_int (i + 1) n body s' else Undefined
         | Throw e \<Rightarrow> Throw e
         | Undefined \<Rightarrow> Undefined)
      else Return s)"
  by pat_completeness auto
termination
  by (relation "measure (\<lambda>(i, n, body, s). 2147483647 - i)") auto

declare for_int.simps [simp del]

text \<open>
  \<^verbatim>\<open>void print(const unsigned precision = 3) const\<close>, with the text written to the
  standard output so far passed in and returned.  \<open>fmt N v\<close> stands for the characters
  \<^verbatim>\<open>printf\<close> writes for \<open>v\<close> under the conversion \<^verbatim>\<open>%+1.Nf\<close>; the format string
  of the source is \<^verbatim>\<open>" %+1.3f"\<close>.
\<close>

definition print :: "(nat \<Rightarrow> 'a \<Rightarrow> string) \<Rightarrow> 'a matrix \<Rightarrow> 32 word \<Rightarrow> string \<Rightarrow> string outcome" where
  "print fmt m precision out =
     and_then
       (for_int 0 (height m) (\<lambda>i out.
          and_then
            (for_int 0 (width m) (\<lambda>j out.
               and_then (get m i j) (\<lambda>v. Return (out @ '' '' @ fmt 3 v))) out)
            (\<lambda>out. Return (out @ [CHR 0x0A]))) out)
       (\<lambda>out. Return (out @ [CHR 0x0A]))"

subsection \<open>Invariants and specification functions\<close>

text \<open>
  \<open>valid\<close>: the storage holds a written cell for every position of the recorded shape.
  Every constructor establishes it and every member function keeps it.
  \<open>allocated\<close>: the storage is exactly what \<open>allocDims\<close> gives for the recorded shape, as
  after every constructor but the default one, which allocates one cell for the shape 0 by 0.
\<close>

definition valid :: "'a matrix \<Rightarrow> bool" where
  "valid m \<longleftrightarrow>
     unat (height m) \<le> length (data m) \<and>
     (\<forall>r<unat (height m). unat (width m) \<le> length (data m ! r) \<and>
        (\<forall>c<unat (width m). data m ! r ! c \<noteq> None))"

definition allocated :: "'a matrix \<Rightarrow> bool" where
  "allocated m \<longleftrightarrow>
     length (data m) = unat (height m) \<and> (\<forall>row \<in> set (data m). length row = unat (width m))"

text \<open>The element a valid matrix holds at row \<open>r\<close>, column \<open>c\<close>.\<close>

definition elem :: "'a matrix \<Rightarrow> nat \<Rightarrow> nat \<Rightarrow> 'a" where
  "elem m r c = the (data m ! r ! c)"

text \<open>
  The sum of the products along row \<open>r\<close> of \<open>L\<close> and column \<open>c\<close> of \<open>R\<close>, taken from
  left to right and started at zero.
\<close>

definition row_by_col :: "'a::{zero,plus,times} matrix \<Rightarrow> 'a matrix \<Rightarrow> nat \<Rightarrow> nat \<Rightarrow> 'a" where
  "row_by_col L R r c =
     foldl (\<lambda>acc k. acc + elem L r k * elem R k c) 0 [0..<unat (width L)]"

text \<open>
  The text of row \<open>r\<close>: every element of the row after a space, under the conversion with
  three decimals, and a newline.  The text of the matrix: its rows in order and one more
  newline.
\<close>

definition row_text :: "(nat \<Rightarrow> 'a \<Rightarrow> string) \<Rightarrow> 'a matrix \<Rightarrow> nat \<Rightarrow> string" where
  "row_text fmt m r =
     concat (map (\<lambda>c. '' '' @ fmt 3 (elem m r c)) [0..<unat (width m)]) @ [CHR 0x0A]"

definition print_text :: "(nat \<Rightarrow> 'a \<Rightarrow> string) \<Rightarrow> 'a matrix \<Rightarrow> string" where
  "print_text fmt m = concat (map (row_text fmt m) [0..<unat (height m)]) @ [CHR 0x0A]"


text \<open>
  What the range of a sample needs of the element type's arithmetic, with \<open>RM\<close> for
  \<^verbatim>\<open>RAND_MAX\<close>: the quotient of a converted \<open>r\<close> by the converted \<open>RM\<close> lies between
  0 and 1 when \<open>0 \<le> r \<le> RM\<close>; the double of a value between 0 and 1 lies between 0 and 2;
  a value between 0 and 2 less 1 lies between -1 and 1.  Exact ordered fields and the
  integers have these properties (lemmas \<open>keeps_range_field\<close>, \<open>keeps_range_int\<close>), and
  so has an arithmetic that rounds monotonically; an unsigned type has not, since
  \<open>0 - 1\<close> wraps around.
\<close>

definition keeps_range :: "(int \<Rightarrow> 'a::{ord,divide,times,minus}) \<Rightarrow> int \<Rightarrow> bool" where
  "keeps_range conv RM \<longleftrightarrow>
     (\<forall>r. 0 \<le> r \<and> r \<le> RM \<longrightarrow>
        conv 0 \<le> divide (conv r) (conv RM) \<and> divide (conv r) (conv RM) \<le> conv 1) \<and>
     (\<forall>q. conv 0 \<le> q \<and> q \<le> conv 1 \<longrightarrow> conv 0 \<le> q * conv 2 \<and> q * conv 2 \<le> conv 2) \<and>
     (\<forall>t. conv 0 \<le> t \<and> t \<le> conv 2 \<longrightarrow> conv (- 1) \<le> t - conv 1 \<and> t - conv 1 \<le> conv 1)"

subsection \<open>Auxiliary notions for the proofs\<close>

text \<open>The cell of a storage at row \<open>r\<close> and column \<open>c\<close>, written or not.\<close>

definition cell :: "'a option list list \<Rightarrow> nat \<Rightarrow> nat \<Rightarrow> 'a option" where
  "cell d r c = d ! r ! c"

text \<open>A storage of \<open>H\<close> rows of \<open>W\<close> cells each.\<close>

definition dims :: "'a option list list \<Rightarrow> nat \<Rightarrow> nat \<Rightarrow> bool" where
  "dims d H W \<longleftrightarrow> length d = H \<and> (\<forall>r<H. length (d ! r) = W)"

text \<open>
  The same two read through the transposition when \<open>sw\<close> holds: a loop that writes the
  cell \<open>(j, i)\<close> at its position \<open>(i, j)\<close> is then treated as one that writes \<open>(i, j)\<close>.
\<close>

definition at_sw :: "bool \<Rightarrow> 'a option list list \<Rightarrow> nat \<Rightarrow> nat \<Rightarrow> 'a option" where
  "at_sw sw d i j = (if sw then cell d j i else cell d i j)"

definition dims_sw :: "bool \<Rightarrow> 'a option list list \<Rightarrow> nat \<Rightarrow> nat \<Rightarrow> bool" where
  "dims_sw sw d n m = (if sw then dims d m n else dims d n m)"

text \<open>
  The cells a row-major double loop has passed when it stands at row \<open>i\<close>, column \<open>j\<close>.
\<close>

definition before :: "nat \<Rightarrow> nat \<Rightarrow> nat \<Rightarrow> nat \<Rightarrow> bool" where
  "before i j r c \<longleftrightarrow> r < i \<or> (r = i \<and> c < j)"

text \<open>The matrix with the given rows, for the examples.\<close>

definition of_rows :: "'a list list \<Rightarrow> 'a matrix" where
  "of_rows rows = \<lparr>data = map (map Some) rows, height = of_nat (length rows),
                    width = of_nat (length (hd rows))\<rparr>"

text \<open>
  The heap whose objects 0, 1, ... are in the listed states, for the examples; every other
  reference names an object as the default constructor leaves it.
\<close>

definition heap_of :: "'a matrix list \<Rightarrow> 'a heap" where
  "heap_of ms = (\<lambda>x. if x < length ms then ms ! x
                      else \<lparr>data = [[None]], height = 0, width = 0\<rparr>)"

text \<open>
  An instance of the C library for the examples: a linear congruential generator with
  31 bits of state.
\<close>

definition lcg :: "nat stdlib" where
  "lcg = \<lparr>srand = unat,
           rand = (\<lambda>g. (int ((g * 1103515245 + 12345) mod 2147483648),
                        (g * 1103515245 + 12345) mod 2147483648)),
           RAND_MAX = 2147483647\<rparr>"

section \<open>Properties\<close>

subsection \<open>Loops\<close>

lemma unat_inc: "(i::dim_t) < n \<Longrightarrow> unat (i + 1) = Suc (unat i)"
  by (metis (no_types, lifting) Suc_eq_plus1 add.commute add_0 inc_i inc_le
      unat_plus_simple unsigned_0 unsigned_1 word_gt_0)

lemma unat_of_nat_le: "unat (of_nat n :: dim_t) \<le> n"
  by (simp add: unat_of_nat)

lemma unat_of_nat_dim: "n < 2 ^ 32 \<Longrightarrow> unat (of_nat n :: dim_t) = n"
  by (simp add: unat_of_nat)

lemma of_nat_less_dim: "k < 2 ^ 32 \<Longrightarrow> (of_nat k :: dim_t) < n \<longleftrightarrow> k < unat n"
  by (simp add: word_less_nat_alt unat_of_nat)

lemma for_dim_rule_throw:
  assumes "P (unat i) s" and "i \<le> n"
    and step: "\<And>k t. unat i \<le> unat k \<Longrightarrow> k < n \<Longrightarrow> P (unat k) t
                 \<Longrightarrow> (\<exists>t'. body k t = Return t' \<and> P (Suc (unat k)) t')
                   \<or> (\<exists>e. body k t = Throw e \<and> E (unat k) e)"
  shows "(\<exists>t. for_dim i n body s = Return t \<and> P (unat n) t)
       \<or> (\<exists>k e. for_dim i n body s = Throw e \<and> k < unat n \<and> E k e)"
  using assms
proof (induction i n body s rule: for_dim.induct)
  case (1 i n body s)
  show ?case
  proof (cases "i < n")
    case True
    then have lt: "unat i < unat n"
      by (simp add: word_less_nat_alt)
    from "1.prems"(3) [OF le_refl True "1.prems"(1)]
    consider t' where "body i s = Return t'" "P (Suc (unat i)) t'"
      | e where "body i s = Throw e" "E (unat i) e"
      by blast
    then show ?thesis
    proof cases
      case 1
      have inc: "unat (i + 1) = Suc (unat i)"
        using True by (rule unat_inc)
      have le: "i + 1 \<le> n"
        using True by (rule inc_le)
      have "(\<exists>t. for_dim (i + 1) n body t' = Return t \<and> P (unat n) t)
          \<or> (\<exists>k e. for_dim (i + 1) n body t' = Throw e \<and> k < unat n \<and> E k e)"
      proof (rule "1.IH" [OF True 1(1)])
        show "P (unat (i + 1)) t'"
          using 1(2) inc by simp
        show "i + 1 \<le> n"
          by (rule le)
        fix k t
        assume "unat (i + 1) \<le> unat k" "k < n" "P (unat k) t"
        then show "(\<exists>t'. body k t = Return t' \<and> P (Suc (unat k)) t')
                   \<or> (\<exists>e. body k t = Throw e \<and> E (unat k) e)"
          using "1.prems"(3) [of k t] inc by simp
      qed
      then show ?thesis
        using True 1(1) by (subst (1 2) for_dim.simps) simp
    next
      case 2
      have "for_dim i n body s = Throw e"
        using True 2(1) by (subst for_dim.simps) simp
      with 2(2) lt show ?thesis
        by blast
    qed
  next
    case False
    with "1.prems"(2) have "i = n"
      by simp
    with "1.prems"(1) show ?thesis
      by (subst for_dim.simps) simp
  qed
qed

lemma for_dim_rule:
  assumes "P (unat i) s" and "i \<le> n"
    and step: "\<And>k t. unat i \<le> unat k \<Longrightarrow> k < n \<Longrightarrow> P (unat k) t
                 \<Longrightarrow> \<exists>t'. body k t = Return t' \<and> P (Suc (unat k)) t'"
  shows "\<exists>t. for_dim i n body s = Return t \<and> P (unat n) t"
proof -
  have "(\<exists>t. for_dim i n body s = Return t \<and> P (unat n) t)
      \<or> (\<exists>k e. for_dim i n body s = Throw e \<and> k < unat n \<and> False)"
    using assms(1,2)
  proof (rule for_dim_rule_throw)
    fix k t
    assume "unat i \<le> unat k" "k < n" "P (unat k) t"
    then show "(\<exists>t'. body k t = Return t' \<and> P (Suc (unat k)) t')
             \<or> (\<exists>e. body k t = Throw e \<and> False)"
      using step by blast
  qed
  then show ?thesis
    by simp
qed

lemma for_dim_nested:
  assumes init: "I 0 0 s"
    and step: "\<And>i j t. i < n \<Longrightarrow> j < m \<Longrightarrow> I (unat i) (unat j) t
                 \<Longrightarrow> \<exists>t'. body i j t = Return t' \<and> I (unat i) (Suc (unat j)) t'"
    and row: "\<And>i t. i < unat n \<Longrightarrow> I i (unat m) t \<Longrightarrow> I (Suc i) 0 t"
  shows "\<exists>t. for_dim 0 n (\<lambda>i. for_dim 0 m (body i)) s = Return t \<and> I (unat n) 0 t"
proof (rule for_dim_rule [where P = "\<lambda>i t. I i 0 t"])
  show "I (unat (0::dim_t)) 0 s"
    using init by simp
  show "(0::dim_t) \<le> n"
    by simp
  fix k t
  assume k: "k < n" and inv: "I (unat k) 0 t"
  have "\<exists>t'. for_dim 0 m (body k) t = Return t' \<and> I (unat k) (unat m) t'"
  proof (rule for_dim_rule [where P = "\<lambda>j t. I (unat k) j t"])
    show "I (unat k) (unat (0::dim_t)) t"
      using inv by simp
    show "(0::dim_t) \<le> m"
      by simp
    fix j u
    assume "j < m" "I (unat k) (unat j) u"
    then show "\<exists>t'. body k j u = Return t' \<and> I (unat k) (Suc (unat j)) t'"
      using step [OF k] by blast
  qed
  then obtain t' where t': "for_dim 0 m (body k) t = Return t'" "I (unat k) (unat m) t'"
    by blast
  from k have "unat k < unat n"
    by (simp add: word_less_nat_alt)
  from row [OF this t'(2)] t'(1)
  show "\<exists>t'. for_dim 0 m (body k) t = Return t' \<and> I (Suc (unat k)) 0 t'"
    by blast
qed

lemma for_dim_no_throw:
  assumes "\<And>k t. body k t \<noteq> Throw e"
  shows "for_dim i n body s \<noteq> Throw e"
  using assms
proof (induction i n body s rule: for_dim.induct)
  case (1 i n body s)
  then show ?case
    by (subst for_dim.simps) (auto split: outcome.split)
qed

lemma for_int_rule:
  assumes "P i s" and "i \<le> unat n" and small: "unat n \<le> 2147483647"
    and step: "\<And>k t. i \<le> k \<Longrightarrow> k < unat n \<Longrightarrow> P k t
                 \<Longrightarrow> \<exists>t'. body (of_nat k) t = Return t' \<and> P (Suc k) t'"
  shows "\<exists>t. for_int i n body s = Return t \<and> P (unat n) t"
  using assms
proof (induction i n body s rule: for_int.induct)
  case (1 i n body s)
  have i32: "i < 2 ^ 32"
    using "1.prems"(2,3) by simp
  show ?case
  proof (cases "i < unat n")
    case True
    then have cond: "(of_nat i :: dim_t) < n"
      using i32 by (simp add: of_nat_less_dim)
    from "1.prems"(4) [OF le_refl True "1.prems"(1)]
    obtain t' where t': "body (of_nat i) s = Return t'" "P (Suc i) t'"
      by blast
    have lt: "i < 2147483647"
      using True "1.prems"(3) by simp
    have "\<exists>t. for_int (i + 1) n body t' = Return t \<and> P (unat n) t"
    proof (rule "1.IH" [OF cond t'(1) lt])
      show "P (i + 1) t'"
        using t'(2) by simp
      show "i + 1 \<le> unat n"
        using True by simp
      show "unat n \<le> 2147483647"
        by (rule "1.prems"(3))
      fix k t
      assume "i + 1 \<le> k" "k < unat n" "P k t"
      then show "\<exists>t'. body (of_nat k) t = Return t' \<and> P (Suc k) t'"
        using "1.prems"(4) [of k t] by simp
    qed
    then show ?thesis
      using cond t'(1) lt by (subst for_int.simps) simp
  next
    case False
    with "1.prems"(2) have eq: "i = unat n"
      by simp
    then have "\<not> (of_nat i :: dim_t) < n"
      using i32 by (simp add: of_nat_less_dim)
    with "1.prems"(1) eq show ?thesis
      by (subst for_int.simps) simp
  qed
qed

lemma and_then_no_throw:
  assumes "x \<noteq> Throw e" "\<And>v. f v \<noteq> Throw e"
  shows "and_then x f \<noteq> Throw e"
  using assms by (cases x) simp_all

subsection \<open>Storage and the invariants\<close>

lemma allocated_dims: "allocated m \<longleftrightarrow> dims (data m) (unat (height m)) (unat (width m))"
  by (auto simp: allocated_def dims_def all_set_conv_all_nth)

lemma valid_dims:
  assumes "dims (data m) (unat (height m)) (unat (width m))"
    and "\<And>r c. r < unat (height m) \<Longrightarrow> c < unat (width m) \<Longrightarrow> cell (data m) r c \<noteq> None"
  shows "valid m"
  using assms by (simp add: valid_def dims_def cell_def)

lemma dims_cell_eq:
  assumes "dims d H W" "dims d' H W" "\<And>r c. r < H \<Longrightarrow> c < W \<Longrightarrow> cell d r c = cell d' r c"
  shows "d = d'"
  using assms by (auto simp: dims_def cell_def intro!: nth_equalityI)

lemma cell_write_dims:
  assumes "dims d H W" "unat y < H" "unat x < W"
  shows "\<exists>d'. cell_write d y x v = Return d' \<and> dims d' H W \<and>
           (\<forall>r c. cell d' r c = (if r = unat y \<and> c = unat x then Some v else cell d r c))"
  using assms
  by (auto simp: cell_write_def dims_def cell_def nth_list_update)

lemma before_0 [simp]: "\<not> before 0 0 r c"
  by (simp add: before_def)

lemma before_Suc: "before i (Suc j) r c \<longleftrightarrow> before i j r c \<or> (r = i \<and> c = j)"
  by (auto simp: before_def)

lemma before_row: "c < W \<Longrightarrow> before (Suc i) 0 r c \<longleftrightarrow> before i W r c"
  by (auto simp: before_def)

lemma before_all: "r < H \<Longrightarrow> before H 0 r c"
  by (simp add: before_def)

lemma get_cell:
  assumes "dims (data m) H W" "unat r < H" "unat c < W"
  shows "get m r c = (case cell (data m) (unat r) (unat c) of Some v \<Rightarrow> Return v | None \<Rightarrow> Undefined)"
  using assms by (simp add: get_def cell_read_def dims_def cell_def)

lemma get_valid:
  assumes "valid m" "r < height m" "c < width m"
  shows "get m r c = Return (elem m (unat r) (unat c))"
proof -
  from assms(2,3) have lt: "unat r < unat (height m)" "unat c < unat (width m)"
    by (simp_all add: word_less_nat_alt)
  with assms(1) have "unat r < length (data m)" "unat c < length (data m ! unat r)"
    and "data m ! unat r ! unat c \<noteq> None"
    by (auto simp: valid_def)
  then show ?thesis
    by (auto simp: get_def cell_read_def elem_def)
qed

lemma get_no_throw: "get m y x \<noteq> Throw e"
  by (simp add: get_def cell_read_def split: option.split)

lemma set_m_cell:
  assumes "dims (data t) H W" "unat y < H" "unat x < W"
  shows "\<exists>t'. set_m t y x v = Return t' \<and> height t' = height t \<and> width t' = width t \<and>
           dims (data t') H W \<and>
           (\<forall>r c. cell (data t') r c = (if r = unat y \<and> c = unat x then Some v else cell (data t) r c))"
  using cell_write_dims [OF assms, of v] by (auto simp: set_m_def)

lemma set_m_valid:
  assumes "valid t" "y < height t" "x < width t"
  shows "\<exists>t'. set_m t y x v = Return t' \<and> height t' = height t \<and> width t' = width t \<and>
           length (data t') = length (data t) \<and>
           (\<forall>r. length (data t' ! r) = length (data t ! r)) \<and>
           (\<forall>r c. cell (data t') r c = (if r = unat y \<and> c = unat x then Some v else cell (data t) r c))"
proof -
  from assms(2,3) have lt: "unat y < unat (height t)" "unat x < unat (width t)"
    by (simp_all add: word_less_nat_alt)
  with assms(1) have "unat y < length (data t)" "unat x < length (data t ! unat y)"
    by (auto simp: valid_def)
  then show ?thesis
    by (auto simp: set_m_def cell_write_def cell_def nth_list_update)
qed

lemma set_m_no_throw: "set_m m y x v \<noteq> Throw e"
  by (simp add: set_m_def cell_write_def)

lemma set_m_sw:
  assumes "dims_sw sw (data t) n m" "unat i < n" "unat j < m"
  shows "\<exists>t'. set_m t (if sw then j else i) (if sw then i else j) v = Return t' \<and>
           height t' = height t \<and> width t' = width t \<and> dims_sw sw (data t') n m \<and>
           (\<forall>r c. at_sw sw (data t') r c
                    = (if r = unat i \<and> c = unat j then Some v else at_sw sw (data t) r c))"
proof (cases sw)
  case True
  with assms have "dims (data t) m n"
    by (simp add: dims_sw_def)
  from set_m_cell [OF this assms(3,2), of v] True show ?thesis
    by (auto simp: at_sw_def dims_sw_def)
next
  case False
  with assms have "dims (data t) n m"
    by (simp add: dims_sw_def)
  from set_m_cell [OF this assms(2,3), of v] False show ?thesis
    by (auto simp: at_sw_def dims_sw_def)
qed

lemma fill_row:
  assumes d0: "dims (data t0) H W" and i: "unat i < H" and m: "unat m \<le> W"
    and val: "\<And>j. j < m \<Longrightarrow> val j = Return (f (unat j))"
  shows "\<exists>t. for_dim 0 m (\<lambda>j t. and_then (val j) (\<lambda>v. set_m t i j v)) t0 = Return t \<and>
             height t = height t0 \<and> width t = width t0 \<and> dims (data t) H W \<and>
             (\<forall>r c. cell (data t) r c
                 = (if r = unat i \<and> c < unat m then Some (f c) else cell (data t0) r c))"
proof -
  define P where "P = (\<lambda>j (t :: 'a matrix).
      height t = height t0 \<and> width t = width t0 \<and> dims (data t) H W \<and>
      (\<forall>r c. cell (data t) r c = (if r = unat i \<and> c < j then Some (f c) else cell (data t0) r c)))"
  have "\<exists>t. for_dim 0 m (\<lambda>j t. and_then (val j) (\<lambda>v. set_m t i j v)) t0 = Return t \<and> P (unat m) t"
  proof (rule for_dim_rule)
    show "P (unat (0::dim_t)) t0"
      using d0 by (simp add: P_def)
    show "(0::dim_t) \<le> m"
      by simp
    fix k :: dim_t and t :: "'a matrix"
    assume k: "k < m" and inv: "P (unat k) t"
    then have "unat k < W"
      using m by (simp add: word_less_nat_alt)
    from inv have d: "dims (data t) H W"
      by (simp add: P_def)
    from set_m_cell [OF d i \<open>unat k < W\<close>, of "f (unat k)"] inv val [OF k]
    show "\<exists>t'. and_then (val k) (\<lambda>v. set_m t i k v) = Return t' \<and> P (Suc (unat k)) t'"
      by (auto simp: P_def less_Suc_eq)
  qed
  then show ?thesis
    by (auto simp: P_def)
qed

lemma fill_matrix:
  assumes d0: "dims_sw sw (data t0) (unat n) (unat m)"
    and val: "\<And>i j. i < n \<Longrightarrow> j < m \<Longrightarrow> val i j = Return (f (unat i) (unat j))"
  shows "\<exists>t. for_dim 0 n (\<lambda>i. for_dim 0 m (\<lambda>j t.
                 and_then (val i j) (\<lambda>v. set_m t (if sw then j else i) (if sw then i else j) v))) t0
               = Return t \<and>
             height t = height t0 \<and> width t = width t0 \<and>
             dims_sw sw (data t) (unat n) (unat m) \<and>
             (\<forall>i<unat n. \<forall>j<unat m. at_sw sw (data t) i j = Some (f i j))"
proof -
  define I where "I = (\<lambda>i j (t :: 'a matrix).
      height t = height t0 \<and> width t = width t0 \<and> dims_sw sw (data t) (unat n) (unat m) \<and>
      (\<forall>r<unat n. \<forall>c<unat m. before i j r c \<longrightarrow> at_sw sw (data t) r c = Some (f r c)))"
  have "\<exists>t. for_dim 0 n (\<lambda>i. for_dim 0 m (\<lambda>j t.
                 and_then (val i j) (\<lambda>v. set_m t (if sw then j else i) (if sw then i else j) v))) t0
               = Return t \<and> I (unat n) 0 t"
  proof (rule for_dim_nested)
    show "I 0 0 t0"
      using d0 by (simp add: I_def)
  next
    fix i j :: dim_t and t :: "'a matrix"
    assume ij: "i < n" "j < m" and inv: "I (unat i) (unat j) t"
    then have lt: "unat i < unat n" "unat j < unat m"
      by (simp_all add: word_less_nat_alt)
    from inv have d: "dims_sw sw (data t) (unat n) (unat m)"
      by (simp add: I_def)
    from set_m_sw [OF d lt, of "f (unat i) (unat j)"] inv val [OF ij]
    show "\<exists>t'. and_then (val i j) (\<lambda>v. set_m t (if sw then j else i) (if sw then i else j) v)
                 = Return t' \<and> I (unat i) (Suc (unat j)) t'"
      by (auto simp: I_def before_Suc)
  next
    fix i t
    assume "i < unat n" "I i (unat m) t"
    then show "I (Suc i) 0 t"
      by (simp add: I_def before_row)
  qed
  then show ?thesis
    by (auto simp: I_def before_all)
qed

subsection \<open>Unguarded element access\<close>

text \<open>
  C9.  \<open>get\<close> and \<open>set_m\<close> never throw, whatever the matrix and the indices.  On a
  matrix whose storage is exactly the one allocated for its shape, as every constructor
  but the default one leaves it, an index with \<open>y \<ge> height\<close>
  or \<open>x \<ge> width\<close> makes both calls undefined behaviour: the bounds \<open>y < height\<close>
  and \<open>x < width\<close> are a precondition and nothing checks it.  Within the bounds, on a
  valid matrix, \<open>get\<close> returns the element and \<open>set_m\<close> stores the value.  For every
  matrix, \<open>set_m\<close> is undefined exactly when the storage has no cell at the index,
  whatever the recorded shape is.
\<close>

theorem get_set_unguarded:
  "get m y x \<noteq> Throw e \<and> set_m m y x v \<noteq> Throw e \<and>
   (allocated m \<and> \<not> (y < height m \<and> x < width m)
      \<longrightarrow> get m y x = Undefined \<and> set_m m y x v = Undefined) \<and>
   (valid m \<and> y < height m \<and> x < width m
      \<longrightarrow> get m y x = Return (elem m (unat y) (unat x)) \<and>
          (\<exists>m'. set_m m y x v = Return m' \<and> get m' y x = Return v)) \<and>
   (set_m m y x v = Undefined
      \<longleftrightarrow> \<not> (unat y < length (data m) \<and> unat x < length (data m ! unat y)))"
proof -
  have "set_m m y x v = Undefined
      \<longleftrightarrow> \<not> (unat y < length (data m) \<and> unat x < length (data m ! unat y))"
    by (simp add: set_m_def cell_write_def)
  moreover
  have "get m y x \<noteq> Throw e"
    by (simp add: get_def cell_read_def split: option.split)
  moreover have "set_m m y x v \<noteq> Throw e"
    by (simp add: set_m_def cell_write_def)
  moreover have "get m y x = Undefined \<and> set_m m y x v = Undefined"
    if "allocated m" "\<not> (y < height m \<and> x < width m)"
    using that
    by (auto simp: allocated_def get_def set_m_def cell_read_def cell_write_def word_less_nat_alt)
  moreover have "get m y x = Return (elem m (unat y) (unat x))"
    if "valid m" "y < height m" "x < width m"
    using that by (rule get_valid)
  moreover have "\<exists>m'. set_m m y x v = Return m' \<and> get m' y x = Return v"
    if "valid m" "y < height m" "x < width m"
  proof -
    from that have "unat y < length (data m)" "unat x < length (data m ! unat y)"
      by (auto simp: valid_def word_less_nat_alt)
    then show ?thesis
      by (simp add: set_m_def cell_write_def get_def cell_read_def)
  qed
  ultimately show ?thesis
    by blast
qed

text \<open>A 1 by 2 matrix read at row 1 and written at column 2; and read in range.\<close>

theorem get_set_unguarded_example:
  "allocated \<lparr>data = [[Some (1::int), Some 2]], height = 1, width = 2\<rparr> \<and>
   get \<lparr>data = [[Some (1::int), Some 2]], height = 1, width = 2\<rparr> 1 0 = Undefined \<and>
   set_m \<lparr>data = [[Some (1::int), Some 2]], height = 1, width = 2\<rparr> 0 2 5 = Undefined \<and>
   get \<lparr>data = [[Some (1::int), Some 2]], height = 1, width = 2\<rparr> 0 1 = Return 2"
  using get_set_unguarded [of "\<lparr>data = [[Some (1::int), Some 2]], height = 1, width = 2\<rparr>" 1 0 "DomainError []" 5]
    get_set_unguarded [of "\<lparr>data = [[Some (1::int), Some 2]], height = 1, width = 2\<rparr>" 0 2 "DomainError []" 5]
  by (simp add: allocated_def get_def cell_read_def)

text \<open>
  The restriction to storage allocated for the shape is needed.  The default constructor
  leaves the shape 0 by 0 and one spare cell: there \<open>set_m\<close> at \<open>(0, 0)\<close> and the
  \<open>get\<close> that follows are defined, although the row index 0 is not below the height 0.
\<close>

theorem default_matrix_accepts_origin:
  "snd (Matrix_default lcg 0) = \<lparr>data = [[None :: int option]], height = 0, width = 0\<rparr> \<and>
   \<not> (0 :: dim_t) < height \<lparr>data = [[None :: int option]], height = 0, width = 0\<rparr> \<and>
   set_m \<lparr>data = [[None]], height = 0, width = 0\<rparr> 0 0 (5 :: int)
     = Return \<lparr>data = [[Some 5]], height = 0, width = 0\<rparr> \<and>
   get \<lparr>data = [[Some (5 :: int)]], height = 0, width = 0\<rparr> 0 0 = Return 5"
  by (simp add: Matrix_default_def set_m_def cell_write_def get_def cell_read_def)

subsection \<open>Zero initialisation\<close>

lemma Matrix_hw_zero:
  "\<exists>m. Matrix_hw h w = Return (m :: 'a::zero matrix) \<and> height m = h \<and> width m = w \<and>
       dims (data m) (unat h) (unat w) \<and>
       (\<forall>r<unat h. \<forall>c<unat w. cell (data m) r c = Some 0)"
proof -
  define I where "I = (\<lambda>i j (d :: 'a option list list). dims d (unat h) (unat w) \<and>
      (\<forall>r<unat h. \<forall>c<unat w. before i j r c \<longrightarrow> cell d r c = Some 0))"
  have "\<exists>d. for_dim 0 h (\<lambda>i. for_dim 0 w (\<lambda>j d. cell_write d i j 0)) (allocDims h w) = Return d
          \<and> I (unat h) 0 d"
  proof (rule for_dim_nested)
    show "I 0 0 (allocDims h w)"
      by (simp add: I_def dims_def allocDims_def)
  next
    fix i j :: dim_t and t :: "'a option list list"
    assume "i < h" "j < w" and inv: "I (unat i) (unat j) t"
    then have "unat i < unat h" "unat j < unat w"
      by (simp_all add: word_less_nat_alt)
    with inv cell_write_dims [of t "unat h" "unat w" i j 0]
    show "\<exists>t'. cell_write t i j 0 = Return t' \<and> I (unat i) (Suc (unat j)) t'"
      by (auto simp: I_def before_Suc)
  next
    fix i t
    assume "i < unat h" "I i (unat w) t"
    then show "I (Suc i) 0 t"
      by (simp add: I_def before_row)
  qed
  then show ?thesis
    by (auto simp: Matrix_hw_def I_def before_all)
qed

lemma Matrix_hw_dims:
  "\<exists>m. Matrix_hw h w = Return (m :: 'a::zero matrix) \<and> height m = h \<and> width m = w \<and>
       dims (data m) (unat h) (unat w)"
  using Matrix_hw_zero [of h w] by blast

lemma Matrix_ctor_cells:
  fixes lib :: "'g stdlib" and g0 :: 'g and conv :: "int \<Rightarrow> 'a::{zero,divide,times,minus}"
    and Q :: "'a \<Rightarrow> bool"
  assumes zero: "random = 0 \<Longrightarrow> Q 0"
    and sample: "\<And>g. random \<noteq> 0 \<Longrightarrow>
                   Q (divide (conv (fst (rand lib g))) (conv (RAND_MAX lib)) * conv 2 - conv 1)"
  shows "\<exists>g m. Matrix_ctor lib conv h w random g0 = Return (g, m) \<and> (random = 0 \<longrightarrow> g = g0) \<and>
           height m = h \<and> width m = w \<and> dims (data m) (unat h) (unat w) \<and>
           (\<forall>r<unat h. \<forall>c<unat w. \<exists>v. cell (data m) r c = Some v \<and> Q v)"
proof -
  define g1 where "g1 = (if random \<noteq> 0 then srand lib random else g0)"
  define body where "body = (\<lambda>(i::dim_t) (j::dim_t) (gd :: 'g \<times> 'a option list list).
      case gd of (g, d) \<Rightarrow>
           if random \<noteq> 0 then
             (let (r, g') = rand lib g in
              and_then (cell_write d i j (divide (conv r) (conv (RAND_MAX lib)) * conv 2 - conv 1))
                (\<lambda>d'. Return (g', d')))
           else
             and_then (cell_write d i j 0) (\<lambda>d'. Return (g, d')))"
  define I where "I = (\<lambda>i j (gd :: 'g \<times> 'a option list list).
      dims (snd gd) (unat h) (unat w) \<and> (random = 0 \<longrightarrow> fst gd = g0) \<and>
      (\<forall>r<unat h. \<forall>c<unat w. before i j r c \<longrightarrow> (\<exists>v. cell (snd gd) r c = Some v \<and> Q v)))"
  have "\<exists>gd. for_dim 0 h (\<lambda>i. for_dim 0 w (body i)) (g1, allocDims h w) = Return gd
          \<and> I (unat h) 0 gd"
  proof (rule for_dim_nested)
    show "I 0 0 (g1, allocDims h w)"
      by (simp add: I_def dims_def allocDims_def g1_def)
  next
    fix i j :: dim_t and t :: "'g \<times> 'a option list list"
    assume "i < h" "j < w" and inv: "I (unat i) (unat j) t"
    then have lt: "unat i < unat h" "unat j < unat w"
      by (simp_all add: word_less_nat_alt)
    obtain g d where t: "t = (g, d)"
      by (cases t)
    from inv t have d: "dims d (unat h) (unat w)"
      by (simp add: I_def)
    show "\<exists>t'. body i j t = Return t' \<and> I (unat i) (Suc (unat j)) t'"
    proof (cases "random = 0")
      case True
      with cell_write_dims [OF d lt, of 0] inv t zero show ?thesis
        by (auto simp: body_def I_def before_Suc)
    next
      case False
      obtain r g' where r: "rand lib g = (r, g')"
        by (cases "rand lib g")
      then have "Q (divide (conv r) (conv (RAND_MAX lib)) * conv 2 - conv 1)"
        using sample [OF False, of g] by simp
      with cell_write_dims [OF d lt, of "divide (conv r) (conv (RAND_MAX lib)) * conv 2 - conv 1"]
        inv t False r show ?thesis
        by (auto simp: body_def I_def before_Suc)
    qed
  next
    fix i t
    assume "i < unat h" "I i (unat w) t"
    then show "I (Suc i) 0 t"
      by (simp add: I_def before_row)
  qed
  then obtain g d where "for_dim 0 h (\<lambda>i. for_dim 0 w (body i)) (g1, allocDims h w) = Return (g, d)"
    "I (unat h) 0 (g, d)"
    by auto
  then show ?thesis
    unfolding Matrix_ctor_def body_def g1_def
    by (auto simp: I_def before_all Let_def)
qed

lemma Matrix_default_valid:
  "valid (snd (Matrix_default lib g)) \<and> \<not> allocated (snd (Matrix_default lib g))"
  by (simp add: Matrix_default_def valid_def allocated_def)

text \<open>
  C5.  For every height \<open>H\<close> and width \<open>W\<close> the constructor called with seed 0 returns
  a matrix of that shape and leaves the generator state as it was; the matrix is the one
  the two-argument call \<open>Matrix_hw H W\<close> gives, every cell of it is written, and
  \<open>get\<close> returns zero at every \<open>(r, c)\<close> with \<open>r < H\<close> and \<open>c < W\<close>.  This holds
  for every element type and whatever its arithmetic is.
\<close>

theorem zero_initialisation:
  fixes lib :: "'g stdlib" and g :: 'g and conv :: "int \<Rightarrow> 'a::{zero,divide,times,minus}"
  shows "\<exists>m. Matrix_ctor lib conv H W 0 g = Return (g, m) \<and> Matrix_hw H W = Return m \<and>
     height m = H \<and> width m = W \<and> valid m \<and>
     (\<forall>r c. r < H \<longrightarrow> c < W \<longrightarrow> get m r c = Return 0)"
proof -
  from Matrix_ctor_cells [where random = 0 and Q = "\<lambda>v. v = (0::'a)" and lib = lib
      and conv = conv and h = H and w = W and ?g0.0 = g]
  obtain m :: "'a matrix" where m: "Matrix_ctor lib conv H W 0 g = Return (g, m)"
    "height m = H" "width m = W" "dims (data m) (unat H) (unat W)"
    "\<forall>r<unat H. \<forall>c<unat W. cell (data m) r c = Some 0"
    by auto
  from Matrix_hw_zero [of H W]
  obtain m' :: "'a matrix" where m': "Matrix_hw H W = Return m'"
    "height m' = H" "width m' = W" "dims (data m') (unat H) (unat W)"
    "\<forall>r<unat H. \<forall>c<unat W. cell (data m') r c = Some 0"
    by auto
  have "data m = data m'"
    using m(4) m'(4) by (rule dims_cell_eq) (simp add: m(5) m'(5))
  with m(2,3) m'(2,3) have eq: "m = m'"
    by simp
  have "valid m"
    using m by (auto intro: valid_dims)
  moreover have "get m r c = Return 0" if "r < H" "c < W" for r c
  proof -
    from that have "unat r < unat H" "unat c < unat W"
      by (simp_all add: word_less_nat_alt)
    with m(4,5) show ?thesis
      by (simp add: get_cell [of m "unat H" "unat W"])
  qed
  ultimately show ?thesis
    using m(1-3) m'(1) eq by auto
qed

text \<open>The constructor with seed 0 at shape 2 by 3, over the integers.\<close>

theorem zero_initialisation_example:
  "\<exists>m :: int matrix. Matrix_ctor lcg of_int 2 3 0 7 = Return (7, m) \<and> Matrix_hw 2 3 = Return m \<and>
     height m = 2 \<and> width m = 3 \<and> valid m \<and> get m 1 2 = Return 0"
  using zero_initialisation [where lib = lcg and conv = "of_int :: int \<Rightarrow> int"
      and H = 2 and W = 3 and g = 7]
  by auto

subsection \<open>Random initialisation\<close>


text \<open>
  Over the integers the division truncates: the quotient is 1 when \<open>rand\<close> returns
  \<^verbatim>\<open>RAND_MAX\<close> and 0 otherwise.
\<close>

lemma keeps_range_int:
  assumes "0 < RM"
  shows "keeps_range (of_int :: int \<Rightarrow> int) RM"
proof -
  have "0 \<le> r div RM \<and> r div RM \<le> 1" if "0 \<le> r" "r \<le> RM" for r
  proof (cases "r = RM")
    case True
    with assms show ?thesis
      by simp
  next
    case False
    with that have "r div RM = 0"
      by (intro div_pos_pos_trivial) simp_all
    then show ?thesis
      by simp
  qed
  then show ?thesis
    by (simp add: keeps_range_def)
qed





subsection \<open>Construction from rows\<close>

lemma from_rows_outcome:
  fixes S :: "'a::zero list list"
  assumes "S \<noteq> []"
  shows "(\<exists>m. Matrix_from_rows S = Return m \<and>
            height m = of_nat (length S) \<and> width m = of_nat (length (hd S)) \<and>
            dims (data m) (unat (of_nat (length S) :: dim_t)) (unat (of_nat (length (hd S)) :: dim_t)) \<and>
            (\<forall>r<unat (of_nat (length S) :: dim_t).
                length (S ! r) = unat (of_nat (length (hd S)) :: dim_t) \<and>
                (\<forall>c<unat (of_nat (length (hd S)) :: dim_t). cell (data m) r c = Some (S ! r ! c))))
       \<or> (Matrix_from_rows S = Throw (DomainError ''Non rectangular vector input!'') \<and>
          (\<exists>k<unat (of_nat (length S) :: dim_t).
              length (S ! k) \<noteq> unat (of_nat (length (hd S)) :: dim_t)))"
proof -
  define H :: dim_t where "H = of_nat (length S)"
  define W :: dim_t where "W = of_nat (length (hd S))"
  define body where "body = (\<lambda>(i :: dim_t) (this :: 'a matrix).
         and_then (vec_at S (unat i)) (\<lambda>row.
           if length row \<noteq> unat (width this) then Throw (DomainError ''Non rectangular vector input!'')
           else
             for_dim 0 (width this) (\<lambda>j this.
               and_then (vec_at row (unat j)) (\<lambda>v. set_m this i j v)) this))"
  define P where "P = (\<lambda>k (t :: 'a matrix).
      height t = H \<and> width t = W \<and> dims (data t) (unat H) (unat W) \<and>
      (\<forall>r<k. length (S ! r) = unat W \<and> (\<forall>c<unat W. cell (data t) r c = Some (S ! r ! c))))"
  define E where "E = (\<lambda>k e. e = DomainError ''Non rectangular vector input!'' \<and> length (S ! k) \<noteq> unat W)"
  have HS: "unat H \<le> length S"
    unfolding H_def by (rule unat_of_nat_le)
  from assms have row0: "vec_at S 0 = Return (hd S)"
    by (simp add: vec_at_def hd_conv_nth)
  from Matrix_hw_dims [of H W]
  obtain t0 :: "'a matrix" where t0: "Matrix_hw H W = Return t0" "height t0 = H" "width t0 = W"
    "dims (data t0) (unat H) (unat W)"
    by blast
  have loop: "(\<exists>t. for_dim 0 H body t0 = Return t \<and> P (unat H) t)
       \<or> (\<exists>k e. for_dim 0 H body t0 = Throw e \<and> k < unat H \<and> E k e)"
  proof (rule for_dim_rule_throw)
    show "P (unat (0::dim_t)) t0"
      using t0 by (simp add: P_def)
    show "(0::dim_t) \<le> H"
      by simp
    fix k :: dim_t and t :: "'a matrix"
    assume k: "k < H" and inv: "P (unat k) t"
    then have lt: "unat k < unat H"
      by (simp add: word_less_nat_alt)
    with HS have row: "vec_at S (unat k) = Return (S ! unat k)"
      by (simp add: vec_at_def)
    from inv have t: "height t = H" "width t = W" "dims (data t) (unat H) (unat W)"
      by (simp_all add: P_def)
    show "(\<exists>t'. body k t = Return t' \<and> P (Suc (unat k)) t')
        \<or> (\<exists>e. body k t = Throw e \<and> E (unat k) e)"
    proof (cases "length (S ! unat k) = unat W")
      case False
      with row t(2) have "body k t = Throw (DomainError ''Non rectangular vector input!'')"
        by (simp add: body_def)
      with False show ?thesis
        by (simp add: E_def)
    next
      case True
      have "\<exists>t'. for_dim 0 W (\<lambda>j t. and_then (vec_at (S ! unat k) (unat j))
                  (\<lambda>v. set_m t k j v)) t = Return t' \<and>
             height t' = height t \<and> width t' = width t \<and> dims (data t') (unat H) (unat W) \<and>
             (\<forall>r c. cell (data t') r c
                 = (if r = unat k \<and> c < unat W then Some (S ! unat k ! c) else cell (data t) r c))"
      proof (rule fill_row [OF t(3) lt])
        show "unat W \<le> unat W"
          by simp
        show "vec_at (S ! unat k) (unat j) = Return (S ! unat k ! unat j)" if "j < W" for j
          using that True by (simp add: vec_at_def word_less_nat_alt)
      qed
      then obtain t' where t': "for_dim 0 W (\<lambda>j t. and_then (vec_at (S ! unat k) (unat j))
                  (\<lambda>v. set_m t k j v)) t = Return t'"
          "height t' = H" "width t' = W" "dims (data t') (unat H) (unat W)"
          "\<forall>r c. cell (data t') r c
                 = (if r = unat k \<and> c < unat W then Some (S ! unat k ! c) else cell (data t) r c)"
        using t(1,2) by auto
      have "body k t = Return t'"
        using row True t(2) t'(1) by (simp add: body_def)
      moreover have "P (Suc (unat k)) t'"
        using inv t'(2-5) True by (auto simp: P_def less_Suc_eq)
      ultimately show ?thesis
        by blast
    qed
  qed
  have unfold: "Matrix_from_rows S = for_dim 0 H body t0"
    using row0 t0(1-3)
    by (simp add: Matrix_from_rows_def body_def H_def W_def)
  from loop show ?thesis
    unfolding unfold
    by (auto simp: P_def E_def H_def W_def)
qed

lemma of_rows_rect:
  assumes rect: "\<forall>row \<in> set S. length row = n"
  shows "dims (map (map Some) S) (length S) n"
    and "\<And>r c. r < length S \<Longrightarrow> c < n \<Longrightarrow> cell (map (map Some) S) r c = Some (S ! r ! c)"
  using rect by (simp_all add: dims_def cell_def)

text \<open>
  C7.  Let \<open>S\<close> be a sequence of rows that is not empty, with fewer than \<open>2^32\<close>
  rows and a first row shorter than \<open>2^32\<close>, so that both sizes survive the conversion to
  \<^verbatim>\<open>dim_t\<close>.  If every row is as long as the first, the constructor returns the matrix
  with the rows \<open>S\<close>: its height is the number of rows, its width the length of the first
  row, its storage is exactly that shape, and the element at \<open>(i, j)\<close> is \<open>S[i][j]\<close>.
  Otherwise, that is if and only if some row differs in length from the first, it throws
  \<^verbatim>\<open>std::domain_error\<close>.
\<close>

theorem from_rows_correct:
  fixes S :: "'a::zero list list"
  assumes "S \<noteq> []" "length S < 2 ^ 32" "length (hd S) < 2 ^ 32"
  shows "if \<forall>row \<in> set S. length row = length (hd S) then
           \<exists>m. Matrix_from_rows S = Return m \<and> m = of_rows S \<and>
               unat (height m) = length S \<and> unat (width m) = length (hd S) \<and>
               valid m \<and> allocated m \<and>
               (\<forall>i j. i < length S \<longrightarrow> j < length (hd S) \<longrightarrow>
                  get m (of_nat i) (of_nat j) = Return (S ! i ! j))
         else Matrix_from_rows S = Throw (DomainError ''Non rectangular vector input!'')"
proof -
  have H: "unat (of_nat (length S) :: dim_t) = length S"
    using assms(2) by (simp add: unat_of_nat_dim)
  have W: "unat (of_nat (length (hd S)) :: dim_t) = length (hd S)"
    using assms(3) by (simp add: unat_of_nat_dim)
  note out = from_rows_outcome [OF assms(1), unfolded H W]
  show ?thesis
  proof (cases "\<forall>row \<in> set S. length row = length (hd S)")
    case True
    with out obtain m where m: "Matrix_from_rows S = Return m"
      "height m = of_nat (length S)" "width m = of_nat (length (hd S))"
      "dims (data m) (length S) (length (hd S))"
      "\<forall>r<length S. \<forall>c<length (hd S). cell (data m) r c = Some (S ! r ! c)"
      by (auto simp: all_set_conv_all_nth)
    have "data m = map (map Some) S"
      using m(4) of_rows_rect(1) [OF True]
      by (rule dims_cell_eq) (simp add: m(5) of_rows_rect(2) [OF True])
    with m(2,3) have eq: "m = of_rows S"
      by (simp add: of_rows_def)
    have v: "valid m"
      using m(2-5) H W by (auto intro!: valid_dims)
    have a: "allocated m"
      using m(2-4) H W by (simp add: allocated_dims)
    have "get m (of_nat i) (of_nat j) = Return (S ! i ! j)"
      if "i < length S" "j < length (hd S)" for i j
    proof -
      from that assms(2,3) have "unat (of_nat i :: dim_t) = i" "unat (of_nat j :: dim_t) = j"
        by (simp_all add: unat_of_nat_dim)
      with that m(4,5) show ?thesis
        by (simp add: get_cell [of m "length S" "length (hd S)"])
    qed
    with True m(1-3) eq v a H W show ?thesis
      by simp
  next
    case False
    then have "\<not> (\<forall>r<length S. length (S ! r) = length (hd S))"
      by (simp add: all_set_conv_all_nth)
    with out have "Matrix_from_rows S = Throw (DomainError ''Non rectangular vector input!'')"
      by blast
    with False show ?thesis
      by simp
  qed
qed

text \<open>
  A rectangular input, and scenario S5: \<open>[[1,2],[3]]\<close> is refused.
\<close>

theorem from_rows_example:
  "[[1, 2], [3, 4 :: int]] \<noteq> [] \<and> [[1, 2], [3 :: int]] \<noteq> [] \<and>
   Matrix_from_rows [[1, 2], [3, 4 :: int]]
     = Return \<lparr>data = [[Some 1, Some 2], [Some 3, Some 4]], height = 2, width = 2\<rparr> \<and>
   Matrix_from_rows [[1, 2], [3 :: int]] = Throw (DomainError ''Non rectangular vector input!'')"
  using from_rows_correct [of "[[1, 2], [3, 4 :: int]]"] from_rows_correct [of "[[1, 2], [3 :: int]]"]
  by (simp add: of_rows_def)

text \<open>
  The bounds are needed; for every sequence the statement does not hold.  The empty
  sequence gives neither a matrix nor an exception: reading \<^verbatim>\<open>src[0]\<close> is undefined
  behaviour.  \<open>2^32\<close> empty rows give a matrix of height 0, not \<open>2^32\<close>.  A single row of
  \<open>2^32\<close> elements, which is rectangular, is refused: the width it is compared with has
  become 0.
\<close>

theorem from_rows_outside_precondition:
  "Matrix_from_rows ([] :: int list list) = Undefined \<and>
   Matrix_from_rows (replicate 4294967296 ([] :: int list))
     = Return \<lparr>data = [], height = 0, width = 0\<rparr> \<and>
   Matrix_from_rows [replicate 4294967296 (0 :: int)]
     = Throw (DomainError ''Non rectangular vector input!'')"
proof -
  have "Matrix_from_rows ([] :: int list list) = Undefined"
    by (simp add: Matrix_from_rows_def vec_at_def)
  moreover have "Matrix_from_rows (replicate 4294967296 ([] :: int list))
     = Return \<lparr>data = [], height = 0, width = 0\<rparr>"
    by (simp add: Matrix_from_rows_def vec_at_def Matrix_hw_def allocDims_def for_dim.simps)
  moreover have "Matrix_from_rows [replicate 4294967296 (0 :: int)]
     = Throw (DomainError ''Non rectangular vector input!'')"
    by (simp add: Matrix_from_rows_def vec_at_def Matrix_hw_def allocDims_def for_dim.simps)
  ultimately show ?thesis
    by blast
qed

text \<open>
  C10.  The constructor reads \<^verbatim>\<open>src[0]\<close> before anything else, so the empty sequence
  is undefined behaviour, neither an empty matrix nor an exception; and the empty sequence
  is the only input on which the constructor's behaviour is undefined.  A non-empty \<open>S\<close>
  is the precondition.
\<close>

theorem from_rows_needs_first_row:
  fixes S :: "'a::zero list list"
  shows "Matrix_from_rows S = Undefined \<longleftrightarrow> S = []"
proof
  assume "Matrix_from_rows S = Undefined"
  with from_rows_outcome [of S] show "S = []"
    by auto
next
  assume "S = []"
  then show "Matrix_from_rows S = Undefined"
    by (simp add: Matrix_from_rows_def vec_at_def)
qed

text \<open>The empty sequence, and a sequence of one row.\<close>

theorem from_rows_needs_first_row_example:
  "Matrix_from_rows ([] :: int list list) = Undefined \<and>
   Matrix_from_rows [[1 :: int]] \<noteq> Undefined"
  using from_rows_needs_first_row [of "[] :: int list list"]
    from_rows_needs_first_row [of "[[1 :: int]]"]
  by simp

subsection \<open>Copy construction\<close>

lemma Matrix_copy_valid:
  fixes src :: "'a::zero matrix"
  assumes "valid src"
  shows "\<exists>m. Matrix_copy src = Return m \<and> height m = height src \<and> width m = width src \<and>
           allocated m \<and> valid m \<and>
           (\<forall>r c. r < height src \<longrightarrow> c < width src \<longrightarrow> get m r c = get src r c)"
proof -
  let ?H = "height src" and ?W = "width src"
  from Matrix_hw_dims [of ?H ?W]
  obtain t0 :: "'a matrix" where t0: "Matrix_hw ?H ?W = Return t0"
    "height t0 = ?H" "width t0 = ?W" "dims (data t0) (unat ?H) (unat ?W)"
    by blast
  have "\<exists>m. for_dim 0 ?H (\<lambda>i. for_dim 0 ?W (\<lambda>j t.
                 and_then (get src i j) (\<lambda>v. set_m t (if False then j else i) (if False then i else j) v))) t0
               = Return m \<and>
             height m = height t0 \<and> width m = width t0 \<and>
             dims_sw False (data m) (unat ?H) (unat ?W) \<and>
             (\<forall>i<unat ?H. \<forall>j<unat ?W. at_sw False (data m) i j = Some (elem src i j))"
  proof (rule fill_matrix)
    show "dims_sw False (data t0) (unat ?H) (unat ?W)"
      using t0(4) by (simp add: dims_sw_def)
    show "get src i j = Return (elem src (unat i) (unat j))" if "i < ?H" "j < ?W" for i j
      using assms that by (rule get_valid)
  qed
  then obtain m where m: "for_dim 0 ?H (\<lambda>i. for_dim 0 ?W (\<lambda>j t.
                 and_then (get src i j) (\<lambda>v. set_m t i j v))) t0 = Return m"
      "height m = ?H" "width m = ?W" "dims (data m) (unat ?H) (unat ?W)"
      "\<forall>i<unat ?H. \<forall>j<unat ?W. cell (data m) i j = Some (elem src i j)"
    using t0(2,3) by (auto simp: dims_sw_def at_sw_def)
  have "valid m"
    using m(2-5) by (auto intro!: valid_dims)
  moreover have "allocated m"
    using m(2-4) by (simp add: allocated_dims)
  moreover have "get m r c = get src r c" if "r < ?H" "c < ?W" for r c
  proof -
    from that have lt: "unat r < unat ?H" "unat c < unat ?W"
      by (simp_all add: word_less_nat_alt)
    with m(4,5) have "get m r c = Return (elem src (unat r) (unat c))"
      by (simp add: get_cell [of m "unat ?H" "unat ?W"])
    with get_valid [OF assms that] show ?thesis
      by simp
  qed
  ultimately show ?thesis
    using m(1-3) t0(1-3) by (simp add: Matrix_copy_def)
qed

subsection \<open>Transposition\<close>

text \<open>
  C6.  For every valid matrix \<open>S\<close>, the object \<open>src\<close> names in the heap \<open>s\<close>,
  \<open>transpose_m\<close> returns a new valid matrix \<open>T\<close> whose height is the width of \<open>S\<close> and
  whose width is the height of \<open>S\<close>, with \<open>T[c, r] = S[r, c]\<close> for every \<open>r\<close> below the
  height and \<open>c\<close> below the width of \<open>S\<close>; the heap after the call is the heap before it,
  so \<open>S\<close> keeps its shape and its elements.
\<close>

theorem transpose_correct:
  fixes s :: "'a::zero heap"
  assumes "valid (s src)"
  shows "\<exists>T. transpose_m src s = (s, Return T) \<and>
           height T = width (s src) \<and> width T = height (s src) \<and> valid T \<and>
           (\<forall>r c. r < height (s src) \<longrightarrow> c < width (s src) \<longrightarrow>
              (\<exists>v. get (s src) r c = Return v \<and> get T c r = Return v))"
proof -
  let ?S = "s src"
  from Matrix_hw_dims [of "width ?S" "height ?S"]
  obtain ret :: "'a matrix" where ret: "Matrix_hw (width ?S) (height ?S) = Return ret"
    "height ret = width ?S" "width ret = height ?S"
    "dims (data ret) (unat (width ?S)) (unat (height ?S))"
    by blast
  have "\<exists>T. for_dim 0 (height ?S) (\<lambda>h. for_dim 0 (width ?S) (\<lambda>w t.
                 and_then (get ?S h w) (\<lambda>v. set_m t (if True then w else h) (if True then h else w) v))) ret
               = Return T \<and>
             height T = height ret \<and> width T = width ret \<and>
             dims_sw True (data T) (unat (height ?S)) (unat (width ?S)) \<and>
             (\<forall>i<unat (height ?S). \<forall>j<unat (width ?S). at_sw True (data T) i j = Some (elem ?S i j))"
  proof (rule fill_matrix)
    show "dims_sw True (data ret) (unat (height ?S)) (unat (width ?S))"
      using ret(4) by (simp add: dims_sw_def)
    show "get ?S i j = Return (elem ?S (unat i) (unat j))" if "i < height ?S" "j < width ?S" for i j
      using assms that by (rule get_valid)
  qed
  then obtain T where T: "for_dim 0 (height ?S) (\<lambda>h. for_dim 0 (width ?S) (\<lambda>w t.
                 and_then (get ?S h w) (\<lambda>v. set_m t w h v))) ret = Return T"
      "height T = width ?S" "width T = height ?S"
      "dims (data T) (unat (width ?S)) (unat (height ?S))"
      "\<forall>i<unat (height ?S). \<forall>j<unat (width ?S). cell (data T) j i = Some (elem ?S i j)"
    using ret(2,3) by (auto simp: dims_sw_def at_sw_def)
  have vT: "valid T"
    using T(2-5) by (auto intro!: valid_dims)
  have "\<exists>v. get ?S r c = Return v \<and> get T c r = Return v"
    if "r < height ?S" "c < width ?S" for r c
  proof -
    from that have lt: "unat r < unat (height ?S)" "unat c < unat (width ?S)"
      by (simp_all add: word_less_nat_alt)
    have "get ?S r c = Return (elem ?S (unat r) (unat c))"
      using assms that by (rule get_valid)
    moreover have "get T c r = Return (elem ?S (unat r) (unat c))"
      using T(4,5) lt by (simp add: get_cell [of T "unat (width ?S)" "unat (height ?S)"])
    ultimately show ?thesis
      by simp
  qed
  with T(1-3) vT ret(1) show ?thesis
    by (simp add: transpose_m_def)
qed

text \<open>Scenario S2: the transpose of \<open>[[1,2,3],[4,5,6]]\<close> is \<open>[[1,4],[2,5],[3,6]]\<close>.\<close>

theorem transpose_example:
  "valid (of_rows [[1, 2, 3], [4, 5, 6 :: int]]) \<and>
   transpose_m 0 (heap_of [of_rows [[1, 2, 3], [4, 5, 6 :: int]]])
     = (heap_of [of_rows [[1, 2, 3], [4, 5, 6]]], Return (of_rows [[1, 4], [2, 5], [3, 6]]))"
proof -
  let ?s = "heap_of [of_rows [[1, 2, 3], [4, 5, 6 :: int]]]"
  have v: "valid (?s 0)"
    by code_simp
  from transpose_correct [of ?s 0, OF v]
  obtain T where T: "transpose_m 0 ?s = (?s, Return T)"
    by blast
  have "snd (transpose_m 0 ?s) = Return (of_rows [[1, 4], [2, 5], [3, 6]])"
    by code_simp
  moreover have "?s 0 = of_rows [[1, 2, 3], [4, 5, 6]]"
    by (simp add: heap_of_def)
  ultimately show ?thesis
    using T v by simp
qed

subsection \<open>Matrix multiplication\<close>

lemma dot_sum:
  fixes L R :: "'a::{zero,plus,times} matrix"
  assumes "valid L" "valid R" "width L = height R" "r < height L" "c < width R"
  shows "for_dim 0 (width L) (\<lambda>i sum.
           and_then (get L r i) (\<lambda>a.
           and_then (get R i c) (\<lambda>b. Return (sum + a * b)))) 0
         = Return (row_by_col L R (unat r) (unat c))"
proof -
  define P where "P = (\<lambda>k (sum :: 'a).
      sum = foldl (\<lambda>acc k. acc + elem L (unat r) k * elem R k (unat c)) 0 [0..<k])"
  have "\<exists>t. for_dim 0 (width L) (\<lambda>i sum.
           and_then (get L r i) (\<lambda>a.
           and_then (get R i c) (\<lambda>b. Return (sum + a * b)))) 0 = Return t \<and> P (unat (width L)) t"
  proof (rule for_dim_rule)
    show "P (unat (0::dim_t)) 0"
      by (simp add: P_def)
    show "(0::dim_t) \<le> width L"
      by simp
    fix k :: dim_t and t :: 'a
    assume k: "k < width L" and inv: "P (unat k) t"
    have "get L r k = Return (elem L (unat r) (unat k))"
      using assms(1,4) k by (rule get_valid)
    moreover have "get R k c = Return (elem R (unat k) (unat c))"
      using assms(2) k assms(5) by (simp add: get_valid assms(3) [symmetric])
    ultimately show "\<exists>t'. and_then (get L r k) (\<lambda>a.
           and_then (get R k c) (\<lambda>b. Return (t + a * b))) = Return t' \<and> P (Suc (unat k)) t'"
      using inv by (simp add: P_def)
  qed
  then show ?thesis
    by (auto simp: P_def row_by_col_def)
qed

text \<open>
  C1.  For every two valid matrices \<open>L\<close> and \<open>R\<close>, the objects \<open>lhs\<close> and \<open>rhs\<close> name in
  the heap, with the width of \<open>L\<close> equal to the height of \<open>R\<close>, \<open>dot\<close> returns a new valid
  matrix \<open>P\<close> with the height of \<open>L\<close> and the width of \<open>R\<close>, and \<open>P[r, c]\<close> is the sum
  of \<open>L[r, k] * R[k, c]\<close> for \<open>k\<close> from 0 up to the width of \<open>L\<close>, added from left to
  right onto zero.  The heap is left as it was.
\<close>

theorem dot_correct:
  fixes s :: "'a::{zero,plus,times} heap"
  assumes "valid (s lhs)" "valid (s rhs)" "width (s lhs) = height (s rhs)"
  shows "\<exists>P. dot lhs rhs s = (s, Return P) \<and>
           height P = height (s lhs) \<and> width P = width (s rhs) \<and> valid P \<and>
           (\<forall>r c. r < height P \<longrightarrow> c < width P \<longrightarrow>
              get P r c = Return (row_by_col (s lhs) (s rhs) (unat r) (unat c)))"
proof -
  let ?L = "s lhs" and ?R = "s rhs"
  let ?val = "\<lambda>r c. for_dim 0 (width ?L) (\<lambda>i sum.
                    and_then (get ?L r i) (\<lambda>a.
                    and_then (get ?R i c) (\<lambda>b. Return (sum + a * b)))) 0"
  from Matrix_hw_dims [of "height ?L" "width ?R"]
  obtain ret :: "'a matrix" where ret: "Matrix_hw (height ?L) (width ?R) = Return ret"
    "height ret = height ?L" "width ret = width ?R"
    "dims (data ret) (unat (height ?L)) (unat (width ?R))"
    by blast
  have "\<exists>P. for_dim 0 (height ?L) (\<lambda>r. for_dim 0 (width ?R) (\<lambda>c t.
                 and_then (?val r c) (\<lambda>v. set_m t (if False then c else r) (if False then r else c) v))) ret
               = Return P \<and>
             height P = height ret \<and> width P = width ret \<and>
             dims_sw False (data P) (unat (height ?L)) (unat (width ?R)) \<and>
             (\<forall>i<unat (height ?L). \<forall>j<unat (width ?R).
                 at_sw False (data P) i j = Some (row_by_col ?L ?R i j))"
  proof (rule fill_matrix)
    show "dims_sw False (data ret) (unat (height ?L)) (unat (width ?R))"
      using ret(4) by (simp add: dims_sw_def)
    show "?val i j = Return (row_by_col ?L ?R (unat i) (unat j))"
      if "i < height ?L" "j < width ?R" for i j
      using assms that by (rule dot_sum)
  qed
  then obtain P where P: "for_dim 0 (height ?L) (\<lambda>r. for_dim 0 (width ?R) (\<lambda>c t.
                 and_then (?val r c) (\<lambda>v. set_m t r c v))) ret = Return P"
      "height P = height ?L" "width P = width ?R"
      "dims (data P) (unat (height ?L)) (unat (width ?R))"
      "\<forall>i<unat (height ?L). \<forall>j<unat (width ?R). cell (data P) i j = Some (row_by_col ?L ?R i j)"
    using ret(2,3) by (auto simp: dims_sw_def at_sw_def)
  have vP: "valid P"
    using P(2-5) by (auto intro!: valid_dims)
  have "get P r c = Return (row_by_col ?L ?R (unat r) (unat c))"
    if "r < height P" "c < width P" for r c
  proof -
    from that P(2,3) have lt: "unat r < unat (height ?L)" "unat c < unat (width ?R)"
      by (simp_all add: word_less_nat_alt)
    with P(4,5) show ?thesis
      by (simp add: get_cell [of P "unat (height ?L)" "unat (width ?R)"])
  qed
  with P(1-3) vP ret(1) assms(3) show ?thesis
    by (simp add: dot_def)
qed

text \<open>
  Scenario S1: \<open>[[1,2,3],[4,5,6]]\<close> times \<open>[[7,8],[9,10],[11,12]]\<close> is
  \<open>[[58,64],[139,154]]\<close>.
\<close>

theorem dot_example:
  "valid (of_rows [[1, 2, 3], [4, 5, 6 :: int]]) \<and>
   valid (of_rows [[7, 8], [9, 10], [11, 12 :: int]]) \<and>
   width (of_rows [[1, 2, 3], [4, 5, 6 :: int]]) = height (of_rows [[7, 8], [9, 10], [11, 12 :: int]]) \<and>
   dot 0 1 (heap_of [of_rows [[1, 2, 3], [4, 5, 6 :: int]], of_rows [[7, 8], [9, 10], [11, 12]]])
     = (heap_of [of_rows [[1, 2, 3], [4, 5, 6]], of_rows [[7, 8], [9, 10], [11, 12]]],
        Return (of_rows [[58, 64], [139, 154]]))"
proof -
  let ?s = "heap_of [of_rows [[1, 2, 3], [4, 5, 6 :: int]], of_rows [[7, 8], [9, 10], [11, 12]]]"
  have v: "valid (?s 0)" "valid (?s 1)" "width (?s 0) = height (?s 1)"
    by code_simp+
  from dot_correct [of ?s 0 1, OF v]
  obtain P where P: "dot 0 1 ?s = (?s, Return P)"
    by blast
  have "snd (dot 0 1 ?s) = Return (of_rows [[58, 64], [139, 154]])"
    by code_simp
  moreover have "?s 0 = of_rows [[1, 2, 3], [4, 5, 6]]" "?s 1 = of_rows [[7, 8], [9, 10], [11, 12]]"
    by (simp_all add: heap_of_def)
  ultimately show ?thesis
    using P v by simp
qed

text \<open>Over a semiring the left-to-right sum is the mathematical one.\<close>

lemma row_by_col_sum:
  fixes L R :: "'a::semiring_0 matrix"
  shows "row_by_col L R r c = (\<Sum>k<unat (width L). elem L r k * elem R k c)"
proof -
  have "foldl (\<lambda>acc k. acc + f k) 0 [0..<n] = (\<Sum>k<n. f k)" for f :: "nat \<Rightarrow> 'a" and n
    by (induction n) (simp_all add: add.commute)
  then show ?thesis
    by (simp add: row_by_col_def)
qed

subsection \<open>Compound assignment\<close>

lemma elementwise_correct:
  fixes s :: "'a heap"
  assumes va: "valid (s a)" and vb: "valid (s b)"
    and hw: "height (s a) = height (s b)" "width (s a) = width (s b)"
  shows "\<exists>s'. elementwise f a b s = Return s' \<and> (\<forall>x. x \<noteq> a \<longrightarrow> s' x = s x) \<and>
           height (s' a) = height (s a) \<and> width (s' a) = width (s a) \<and> valid (s' a) \<and>
           (allocated (s a) \<longrightarrow> allocated (s' a)) \<and>
           (\<forall>r c. r < height (s a) \<longrightarrow> c < width (s a) \<longrightarrow>
              get (s' a) r c = Return (f (elem (s a) (unat r) (unat c)) (elem (s b) (unat r) (unat c))))"
proof -
  let ?H = "height (s a)" and ?W = "width (s a)"
  define new where "new = (\<lambda>r c. f (elem (s a) r c) (elem (s b) r c))"
  define I where "I = (\<lambda>i j (t :: 'a heap).
      (\<forall>x. x \<noteq> a \<longrightarrow> t x = s x) \<and> height (t a) = ?H \<and> width (t a) = ?W \<and>
      length (data (t a)) = length (data (s a)) \<and>
      (\<forall>r. length (data (t a) ! r) = length (data (s a) ! r)) \<and>
      (\<forall>r<unat ?H. \<forall>c<unat ?W. cell (data (t a)) r c
          = Some (if before i j r c then new r c else elem (s a) r c)))"
  have cells: "cell (data (s a)) r c = Some (elem (s a) r c)" if "r < unat ?H" "c < unat ?W" for r c
    using va that by (auto simp: valid_def cell_def elem_def)
  have I_valid: "valid (t a)" if "I i j t" for i j t
    using that va by (auto simp: I_def valid_def cell_def)
  have "\<exists>s'. for_dim 0 ?H (\<lambda>i. for_dim 0 ?W (\<lambda>j s.
       and_then (get (s a) i j) (\<lambda>x.
       and_then (get (s b) i j) (\<lambda>y.
       and_then (set_m (s a) i j (f x y)) (\<lambda>m. Return (s(a := m))))))) s = Return s'
       \<and> I (unat ?H) 0 s'"
  proof (rule for_dim_nested)
    show "I 0 0 s"
      by (simp add: I_def cells)
  next
    fix i j :: dim_t and t :: "'a heap"
    assume ij: "i < ?H" "j < ?W" and inv: "I (unat i) (unat j) t"
    then have lt: "unat i < unat ?H" "unat j < unat ?W"
      by (simp_all add: word_less_nat_alt)
    from inv have hw': "height (t a) = ?H" "width (t a) = ?W"
      by (simp_all add: I_def)
    have vt: "valid (t a)"
      using inv by (rule I_valid)
    have cur: "cell (data (t a)) (unat i) (unat j) = Some (elem (s a) (unat i) (unat j))"
      using inv lt by (simp add: I_def before_def)
    have ga: "get (t a) i j = Return (elem (s a) (unat i) (unat j))"
      using get_valid [OF vt, of i j] ij hw' cur by (simp add: elem_def cell_def)
    have gb: "get (t b) i j = Return (elem (s b) (unat i) (unat j))"
    proof (cases "b = a")
      case True
      with ga show ?thesis
        by simp
    next
      case False
      with inv have "t b = s b"
        by (simp add: I_def)
      with get_valid [OF vb, of i j] ij hw show ?thesis
        by simp
    qed
    from set_m_valid [OF vt, of i j "new (unat i) (unat j)"] ij hw'
    obtain m where m: "set_m (t a) i j (new (unat i) (unat j)) = Return m"
      "height m = ?H" "width m = ?W" "length (data m) = length (data (t a))"
      "\<forall>r. length (data m ! r) = length (data (t a) ! r)"
      "\<forall>r c. cell (data m) r c
          = (if r = unat i \<and> c = unat j then Some (new (unat i) (unat j)) else cell (data (t a)) r c)"
      by auto
    have "I (unat i) (Suc (unat j)) (t(a := m))"
      using inv m(2-6) by (auto simp: I_def before_Suc)
    with ga gb m(1)
    show "\<exists>t'. and_then (get (t a) i j) (\<lambda>x.
       and_then (get (t b) i j) (\<lambda>y.
       and_then (set_m (t a) i j (f x y)) (\<lambda>m. Return (t(a := m))))) = Return t'
       \<and> I (unat i) (Suc (unat j)) t'"
      by (simp add: new_def)
  next
    fix i t
    assume "i < unat ?H" "I i (unat ?W) t"
    then show "I (Suc i) 0 t"
      by (simp add: I_def before_row)
  qed
  then obtain s' where s': "elementwise f a b s = Return s'" "I (unat ?H) 0 s'"
    by (auto simp: elementwise_def)
  have v': "valid (s' a)"
    using s'(2) by (rule I_valid)
  have "get (s' a) r c = Return (new (unat r) (unat c))" if "r < ?H" "c < ?W" for r c
  proof -
    from that have lt: "unat r < unat ?H" "unat c < unat ?W"
      by (simp_all add: word_less_nat_alt)
    with s'(2) have "cell (data (s' a)) (unat r) (unat c) = Some (new (unat r) (unat c))"
      by (simp add: I_def before_all)
    with get_valid [OF v', of r c] that s'(2) show ?thesis
      by (simp add: I_def elem_def cell_def)
  qed
  moreover have "allocated (s' a)" if "allocated (s a)"
    using that s'(2) by (auto simp: I_def allocated_def all_set_conv_all_nth)
  ultimately show ?thesis
    using s' v' by (auto simp: I_def new_def)
qed

lemma elementwise_no_throw: "elementwise f a b s \<noteq> Throw e"
  unfolding elementwise_def
  by (intro for_dim_no_throw and_then_no_throw get_no_throw set_m_no_throw) simp

lemma compound_assign_correct:
  fixes s :: "'a::zero heap"
  assumes "valid (s a)" "valid (s b)" "height (s a) = height (s b)" "width (s a) = width (s b)"
  shows "\<exists>s' ret. compound_assign f msg a b s = (s', Return ret) \<and>
           (\<forall>x. x \<noteq> a \<longrightarrow> s' x = s x) \<and>
           height (s' a) = height (s a) \<and> width (s' a) = width (s a) \<and> valid (s' a) \<and>
           height ret = height (s a) \<and> width ret = width (s a) \<and> valid ret \<and>
           (\<forall>r c. r < height (s a) \<longrightarrow> c < width (s a) \<longrightarrow>
              get (s' a) r c = Return (f (elem (s a) (unat r) (unat c)) (elem (s b) (unat r) (unat c)))
              \<and> get ret r c = get (s' a) r c)"
proof -
  from elementwise_correct [OF assms, of f]
  obtain s' where s': "elementwise f a b s = Return s'" "\<forall>x. x \<noteq> a \<longrightarrow> s' x = s x"
    "height (s' a) = height (s a)" "width (s' a) = width (s a)" "valid (s' a)"
    "\<forall>r c. r < height (s a) \<longrightarrow> c < width (s a) \<longrightarrow>
        get (s' a) r c = Return (f (elem (s a) (unat r) (unat c)) (elem (s b) (unat r) (unat c)))"
    by blast
  from Matrix_copy_valid [OF s'(5)]
  obtain ret where ret: "Matrix_copy (s' a) = Return ret" "height ret = height (s' a)"
    "width ret = width (s' a)" "valid ret"
    "\<forall>r c. r < height (s' a) \<longrightarrow> c < width (s' a) \<longrightarrow> get ret r c = get (s' a) r c"
    by blast
  have "compound_assign f msg a b s = (s', Return ret)"
    using assms(3,4) s'(1) ret(1) by (simp add: compound_assign_def)
  with s'(2-6) ret(2-5) show ?thesis
    by simp
qed

text \<open>
  C3.  For every two valid matrices of the same shape, the objects \<open>a\<close> and
  \<open>b\<close> name in the heap, \<open>sub_assign a b\<close> and \<open>mul_assign a b\<close> return normally; afterwards
  the object \<open>a\<close> has its old shape and at every \<open>(r, c)\<close> the old element of \<open>a\<close> minus
  (times) the old element of \<open>b\<close>; the value returned is a copy of it; and every object
  other than \<open>a\<close> is as it was.  So \<open>b\<close> is unchanged when it is another object than
  \<open>a\<close>; when both references name one object, that object holds the result.
\<close>

theorem compound_assign_elementwise:
  fixes s :: "'a::{zero,minus,times} heap"
  assumes "valid (s a)" "valid (s b)" "height (s a) = height (s b)" "width (s a) = width (s b)"
  shows "\<exists>s1 ret1 s2 ret2.
           sub_assign a b s = (s1, Return ret1) \<and> mul_assign a b s = (s2, Return ret2) \<and>
           (\<forall>r c. r < height (s a) \<longrightarrow> c < width (s a) \<longrightarrow>
              get (s1 a) r c = Return (elem (s a) (unat r) (unat c) - elem (s b) (unat r) (unat c)) \<and>
              get (s2 a) r c = Return (elem (s a) (unat r) (unat c) * elem (s b) (unat r) (unat c)) \<and>
              get ret1 r c = get (s1 a) r c \<and> get ret2 r c = get (s2 a) r c) \<and>
           height (s1 a) = height (s a) \<and> width (s1 a) = width (s a) \<and> valid (s1 a) \<and>
           height (s2 a) = height (s a) \<and> width (s2 a) = width (s a) \<and> valid (s2 a) \<and>
           (\<forall>x. x \<noteq> a \<longrightarrow> s1 x = s x \<and> s2 x = s x)"
proof -
  from compound_assign_correct [OF assms, of "\<lambda>x y. x - y"]
  obtain s1 ret1 where 1: "sub_assign a b s = (s1, Return ret1)"
    "\<forall>x. x \<noteq> a \<longrightarrow> s1 x = s x"
    "height (s1 a) = height (s a)" "width (s1 a) = width (s a)" "valid (s1 a)"
    "\<forall>r c. r < height (s a) \<longrightarrow> c < width (s a) \<longrightarrow>
       get (s1 a) r c = Return (elem (s a) (unat r) (unat c) - elem (s b) (unat r) (unat c))
       \<and> get ret1 r c = get (s1 a) r c"
    unfolding sub_assign_def by blast
  from compound_assign_correct [OF assms, of "\<lambda>x y. x * y"]
  obtain s2 ret2 where 2: "mul_assign a b s = (s2, Return ret2)"
    "\<forall>x. x \<noteq> a \<longrightarrow> s2 x = s x"
    "height (s2 a) = height (s a)" "width (s2 a) = width (s a)" "valid (s2 a)"
    "\<forall>r c. r < height (s a) \<longrightarrow> c < width (s a) \<longrightarrow>
       get (s2 a) r c = Return (elem (s a) (unat r) (unat c) * elem (s b) (unat r) (unat c))
       \<and> get ret2 r c = get (s2 a) r c"
    unfolding mul_assign_def by blast
  from 1 2 show ?thesis
    by simp
qed

text \<open>
  Scenario S3: \<open>[[1,2],[3,4]]\<close> minus \<open>[[1,1],[1,1]]\<close> leaves \<open>[[0,1],[2,3]]\<close> in the left
  operand and the right operand as it was; multiplied by it, the left operand keeps its
  elements.
\<close>

theorem sub_assign_example:
  "valid (of_rows [[1, 2], [3, 4 :: int]]) \<and> valid (of_rows [[1, 1], [1, 1 :: int]]) \<and>
   fst (sub_assign 0 1 (heap_of [of_rows [[1, 2], [3, 4 :: int]], of_rows [[1, 1], [1, 1]]])) 0
     = of_rows [[0, 1], [2, 3]] \<and>
   fst (sub_assign 0 1 (heap_of [of_rows [[1, 2], [3, 4 :: int]], of_rows [[1, 1], [1, 1]]])) 1
     = of_rows [[1, 1], [1, 1]] \<and>
   snd (sub_assign 0 1 (heap_of [of_rows [[1, 2], [3, 4 :: int]], of_rows [[1, 1], [1, 1]]]))
     = Return (of_rows [[0, 1], [2, 3]]) \<and>
   fst (mul_assign 0 1 (heap_of [of_rows [[1, 2], [3, 4 :: int]], of_rows [[1, 1], [1, 1]]])) 0
     = of_rows [[1, 2], [3, 4]]"
proof -
  let ?s = "heap_of [of_rows [[1, 2], [3, 4 :: int]], of_rows [[1, 1], [1, 1]]]"
  have v: "valid (?s 0)" "valid (?s 1)" "height (?s 0) = height (?s 1)" "width (?s 0) = width (?s 1)"
    by code_simp+
  from compound_assign_elementwise [of ?s 0 1, OF v]
  obtain s1 ret1 where "sub_assign 0 1 ?s = (s1, Return ret1)" "s1 1 = ?s 1"
    by auto
  moreover have "fst (sub_assign 0 1 ?s) 0 = of_rows [[0, 1], [2, 3]]"
    "snd (sub_assign 0 1 ?s) = Return (of_rows [[0, 1], [2, 3]])"
    "fst (mul_assign 0 1 ?s) 0 = of_rows [[1, 2], [3, 4]]"
    by code_simp+
  moreover have "?s 0 = of_rows [[1, 2], [3, 4]]" "?s 1 = of_rows [[1, 1], [1, 1]]"
    by (simp_all add: heap_of_def)
  ultimately show ?thesis
    using v by simp
qed

text \<open>
  The right operand is not unchanged for every pair: when both operands are one object,
  the 1 by 1 matrix \<open>[[1]]\<close> subtracted from itself holds 0 afterwards.
\<close>

theorem sub_assign_self_changes_operand:
  "valid (heap_of [of_rows [[1 :: int]]] 0) \<and>
   get (heap_of [of_rows [[1 :: int]]] 0) 0 0 = Return 1 \<and>
   get (fst (sub_assign 0 0 (heap_of [of_rows [[1 :: int]]])) 0) 0 0 = Return 0"
  by code_simp

subsection \<open>Shape mismatch\<close>

text \<open>
  C2.  Whenever the operands of \<open>sub_assign\<close> or \<open>mul_assign\<close> differ in width or in height
  the call throws \<^verbatim>\<open>std::domain_error\<close>, and whenever the width of the left operand of
  \<open>dot\<close> differs from the height of the right one \<open>dot\<close> throws it; the heap after the
  call is the heap before it, so the left operand, like every other object, keeps its shape
  and every element.
\<close>

theorem shape_mismatch_throws:
  fixes s :: "'a::{zero,plus,minus,times} heap"
  shows
  "(width (s a) \<noteq> width (s b) \<or> height (s a) \<noteq> height (s b) \<longrightarrow>
      sub_assign a b s
        = (s, Throw (DomainError ''Invalid matrix dimesions for element-wise subtract!'')) \<and>
      mul_assign a b s
        = (s, Throw (DomainError ''Invalid matrix dimesions for element-wise multiply!''))) \<and>
   (width (s l) \<noteq> height (s r) \<longrightarrow>
      dot l r s
        = (s, Throw (DomainError ''Invalid matrix dimensions for static dot multiplication!'')))"
  by (simp add: sub_assign_def mul_assign_def compound_assign_def dot_def)

text \<open>Scenario S4: a 2 by 3 and a 2 by 2 matrix.\<close>

theorem shape_mismatch_example:
  "height (heap_of [of_rows [[1, 2, 3], [4, 5, 6 :: int]], of_rows [[1, 2], [3, 4]]] 0) = 2 \<and>
   width (heap_of [of_rows [[1, 2, 3], [4, 5, 6 :: int]], of_rows [[1, 2], [3, 4]]] 0) = 3 \<and>
   height (heap_of [of_rows [[1, 2, 3], [4, 5, 6 :: int]], of_rows [[1, 2], [3, 4]]] 1) = 2 \<and>
   width (heap_of [of_rows [[1, 2, 3], [4, 5, 6 :: int]], of_rows [[1, 2], [3, 4]]] 1) = 2 \<and>
   dot 0 1 (heap_of [of_rows [[1, 2, 3], [4, 5, 6 :: int]], of_rows [[1, 2], [3, 4]]])
     = (heap_of [of_rows [[1, 2, 3], [4, 5, 6 :: int]], of_rows [[1, 2], [3, 4]]],
        Throw (DomainError ''Invalid matrix dimensions for static dot multiplication!'')) \<and>
   sub_assign 0 1 (heap_of [of_rows [[1, 2, 3], [4, 5, 6 :: int]], of_rows [[1, 2], [3, 4]]])
     = (heap_of [of_rows [[1, 2, 3], [4, 5, 6 :: int]], of_rows [[1, 2], [3, 4]]],
        Throw (DomainError ''Invalid matrix dimesions for element-wise subtract!'')) \<and>
   mul_assign 0 1 (heap_of [of_rows [[1, 2, 3], [4, 5, 6 :: int]], of_rows [[1, 2], [3, 4]]])
     = (heap_of [of_rows [[1, 2, 3], [4, 5, 6 :: int]], of_rows [[1, 2], [3, 4]]],
        Throw (DomainError ''Invalid matrix dimesions for element-wise multiply!''))"
proof -
  let ?s = "heap_of [of_rows [[1, 2, 3], [4, 5, 6 :: int]], of_rows [[1, 2], [3, 4]]]"
  have d: "height (?s 0) = 2" "width (?s 0) = 3" "height (?s 1) = 2" "width (?s 1) = 2"
    by (simp_all add: heap_of_def of_rows_def)
  then have "width (?s 0) \<noteq> width (?s 1) \<or> height (?s 0) \<noteq> height (?s 1)"
    "width (?s 0) \<noteq> height (?s 1)"
    by simp_all
  with shape_mismatch_throws [of ?s 0 1 0 1] d show ?thesis
    by simp
qed

subsection \<open>Printing\<close>

lemma print_output:
  assumes "valid m" "unat (height m) \<le> 2147483647" "unat (width m) \<le> 2147483647"
  shows "print fmt m precision out = Return (out @ print_text fmt m)"
proof -
  let ?H = "unat (height m)" and ?W = "unat (width m)"
  define cells where "cells = (\<lambda>r k. concat (map (\<lambda>c. '' '' @ fmt 3 (elem m r c)) [0..<k]))"
  define rows where "rows = (\<lambda>k. concat (map (row_text fmt m) [0..<k]))"
  have row: "and_then
            (for_int 0 (width m) (\<lambda>j out.
               and_then (get m (of_nat r) j) (\<lambda>v. Return (out @ '' '' @ fmt 3 v))) o1)
            (\<lambda>out. Return (out @ [CHR 0x0A])) = Return (o1 @ row_text fmt m r)"
    if r: "r < ?H" for r o1
  proof -
    have r32: "unat (of_nat r :: dim_t) = r" "(of_nat r :: dim_t) < height m"
      using r assms(2) by (simp_all add: unat_of_nat_dim of_nat_less_dim)
    have "\<exists>t. for_int 0 (width m) (\<lambda>j out.
               and_then (get m (of_nat r) j) (\<lambda>v. Return (out @ '' '' @ fmt 3 v))) o1 = Return t
            \<and> t = o1 @ cells r ?W"
    proof (rule for_int_rule [where P = "\<lambda>k t. t = o1 @ cells r k"])
      show "o1 = o1 @ cells r 0"
        by (simp add: cells_def)
      show "0 \<le> ?W"
        by simp
      show "?W \<le> 2147483647"
        by (rule assms(3))
      fix k t
      assume k: "k < ?W" and t: "t = o1 @ cells r k"
      then have k32: "unat (of_nat k :: dim_t) = k" "(of_nat k :: dim_t) < width m"
        using assms(3) by (simp_all add: unat_of_nat_dim of_nat_less_dim)
      from get_valid [OF assms(1) r32(2) k32(2)] t
      show "\<exists>t'. and_then (get m (of_nat r) (of_nat k)) (\<lambda>v. Return (t @ '' '' @ fmt 3 v)) = Return t'
               \<and> t' = o1 @ cells r (Suc k)"
        by (simp add: r32(1) k32(1) cells_def)
    qed
    then show ?thesis
      by (simp add: cells_def row_text_def)
  qed
  have "\<exists>t. for_int 0 (height m) (\<lambda>i out.
          and_then
            (for_int 0 (width m) (\<lambda>j out.
               and_then (get m i j) (\<lambda>v. Return (out @ '' '' @ fmt 3 v))) out)
            (\<lambda>out. Return (out @ [CHR 0x0A]))) out = Return t \<and> t = out @ rows ?H"
  proof (rule for_int_rule [where P = "\<lambda>k t. t = out @ rows k"])
    show "out = out @ rows 0"
      by (simp add: rows_def)
    show "0 \<le> ?H"
      by simp
    show "?H \<le> 2147483647"
      by (rule assms(2))
    fix k t
    assume k: "k < ?H" and t: "t = out @ rows k"
    from row [OF k, of t] t show "\<exists>t'. and_then
            (for_int 0 (width m) (\<lambda>j out.
               and_then (get m (of_nat k) j) (\<lambda>v. Return (out @ '' '' @ fmt 3 v))) t)
            (\<lambda>out. Return (out @ [CHR 0x0A])) = Return t' \<and> t' = out @ rows (Suc k)"
      by (simp add: rows_def)
  qed
  then show ?thesis
    by (simp add: print_def print_text_def rows_def)
qed

text \<open>
  C8.  The format string is fixed: the parameter \<open>precision\<close> is not used.  Asked for 5
  decimals, \<open>print\<close> writes the element of a 1 by 1 matrix as a space and the text of
  \<^verbatim>\<open>%+1.3f\<close>, three decimals, then the newline that ends the row and the newline that
  ends the matrix.
\<close>

theorem print_uses_three_decimals:
  "print fmt (of_rows [[x]]) 5 out = Return (out @ [CHR 0x20] @ fmt 3 x @ [CHR 0x0A, CHR 0x0A])"
  by (simp add: print_def for_int.simps of_rows_def get_def cell_read_def)

end
